theory Spec2Isabelle
  imports Complex_Main
begin

section \<open>JavaScript values\<close>

text \<open>
  A JavaScript number is a binary64 floating-point value. A finite one is modelled by the
  rational it denotes, and a rational that is not such a value stands for the one nearest
  to it, as a numeric literal does. \<open>to_double\<close> rounds a rational to the nearest binary64
  value, a tie going to the even significand; the sum, difference or product of two
  numbers is the rounded exact result. Infinities and NaN are left out, so magnitudes stay
  below \<open>2\<^sup>1\<^sup>0\<^sup>2\<^sup>4\<close>.
\<close>

type_synonym number = rat

definition digit_char :: "int \<Rightarrow> char" where
  "digit_char d = ''0123456789'' ! nat d"

function int_digits :: "int \<Rightarrow> string" where
  "int_digits n =
     (if n < 10 then [digit_char n] else int_digits (n div 10) @ [digit_char (n mod 10)])"
  by pat_completeness auto
termination
  by (relation "measure nat") auto

declare int_digits.simps [simp del]

definition int_pow :: "int \<Rightarrow> int \<Rightarrow> rat" where
  "int_pow b e = (if 0 \<le> e then of_int b ^ nat e else 1 / of_int b ^ nat (- e))"

function digit_count :: "int \<Rightarrow> int \<Rightarrow> int" where
  "digit_count b n = (if n \<le> 0 \<or> b < 2 then 0 else digit_count b (n div b) + 1)"
  by pat_completeness auto
termination
  by (relation "measure (\<lambda>(b, n). nat n)") (auto simp: int_div_less_self)

declare digit_count.simps [simp del]

text \<open>For a positive \<open>a\<close>, the exponent \<open>e\<close> with \<open>b\<^sup>e \<le> a < b\<^sup>e\<^sup>+\<^sup>1\<close>, from the digit counts of
  numerator and denominator.\<close>

definition floor_log :: "int \<Rightarrow> rat \<Rightarrow> int" where
  "floor_log b a =
     (case quotient_of a of (n, d) \<Rightarrow>
        (let e = digit_count b n - digit_count b d
         in if int_pow b e \<le> a then e else e - 1))"

definition round_half_even :: "rat \<Rightarrow> int" where
  "round_half_even r =
     (let f = \<lfloor>r\<rfloor>; d = r - of_int f
      in if d < 1 / 2 then f else if 1 / 2 < d then f + 1 else if even f then f else f + 1)"

definition to_double :: "rat \<Rightarrow> number" where
  "to_double q =
     (if q = 0 then 0
      else (let a = \<bar>q\<bar>;
                p = max (floor_log 2 a) (- 1022) - 52;
                m = round_half_even (a / int_pow 2 p)
            in sgn q * of_int m * int_pow 2 p))"

text \<open>
  \<open>Number::toString\<close> of the language, which a template literal applies: with \<open>k\<close> as
  small as possible, the \<open>k\<close> digits \<open>s\<close> and the exponent \<open>n\<close> such that \<open>s \<times> 10\<^sup>n\<^sup>-\<^sup>k\<close> rounds
  to the number, the nearest such \<open>s\<close>; seventeen digits always do. \<open>shortest_from\<close> tries
  \<open>k\<close>, \<open>k + 1\<close>, ... and takes the last one without the test.
\<close>

fun shortest_from :: "nat \<Rightarrow> int \<Rightarrow> rat \<Rightarrow> int \<Rightarrow> int \<times> int" where
  "shortest_from 0 k a n = (round_half_even (a * int_pow 10 (k - n)), n)"
| "shortest_from (Suc more) k a n =
     (let s = round_half_even (a * int_pow 10 (k - n))
      in if to_double (of_int s * int_pow 10 (n - k)) = a
         then (if of_int s = int_pow 10 k then (1, n + 1) else (s, n))
         else shortest_from more (k + 1) a n)"

definition shortest_digits :: "rat \<Rightarrow> int \<times> int" where
  "shortest_digits a = shortest_from 16 1 a (floor_log 10 a + 1)"

text \<open>The text for the digits \<open>s\<close> and the exponent \<open>n\<close>: the digits with zeros appended, or
  with a point inside, or after \<open>0.\<close> and zeros, or in exponent notation.\<close>

definition format_digits :: "int \<times> int \<Rightarrow> string" where
  "format_digits sn =
     (case sn of (s, n) \<Rightarrow>
        (let ds = int_digits s; k = int (length ds)
         in if k \<le> n \<and> n \<le> 21 then ds @ replicate (nat (n - k)) CHR ''0''
            else if 0 < n \<and> n \<le> 21 then take (nat n) ds @ ''.'' @ drop (nat n) ds
            else if - 6 < n \<and> n \<le> 0 then ''0.'' @ replicate (nat (- n)) CHR ''0'' @ ds
            else (let e = n - 1;
                      es = (if e < 0 then ''-'' else ''+'') @ int_digits \<bar>e\<bar>
                  in if k = 1 then ds @ ''e'' @ es
                     else take 1 ds @ ''.'' @ drop 1 ds @ ''e'' @ es)))"

definition number_toString :: "number \<Rightarrow> string" where
  "number_toString x =
     (if x = 0 then ''0''
      else (if x < 0 then ''-'' else []) @
           format_digits (shortest_digits (to_double \<bar>x\<bar>)))"

text \<open>\<open>Math.round\<close>: the nearest integer, a tie going up.\<close>

definition Math_round :: "number \<Rightarrow> number" where
  "Math_round x = of_int \<lfloor>x + 1 / 2\<rfloor>"

text \<open>Exceptions that reach the component: a property read on \<open>undefined\<close>, and the
  failures of the external engine.\<close>

datatype exn = TypeError | EngineRejected | AnnotationNotFound | InvalidViewState

subsection \<open>The insertion-ordered Map\<close>

text \<open>
  A JavaScript \<open>Map\<close> keeps its keys in the order of their first insertion; \<open>set\<close> on a
  key that is present replaces the value where the key stands. It is an association list
  with distinct keys.
\<close>

type_synonym ('k, 'v) js_map = "('k \<times> 'v) list"

fun Map_has :: "('k, 'v) js_map \<Rightarrow> 'k \<Rightarrow> bool" where
  "Map_has [] k = False"
| "Map_has ((k', v) # m) k = (k' = k \<or> Map_has m k)"

fun Map_get :: "('k, 'v) js_map \<Rightarrow> 'k \<Rightarrow> 'v option" where
  "Map_get [] k = None"
| "Map_get ((k', v) # m) k = (if k' = k then Some v else Map_get m k)"

fun Map_set :: "'k \<Rightarrow> 'v \<Rightarrow> ('k, 'v) js_map \<Rightarrow> ('k, 'v) js_map" where
  "Map_set k v [] = [(k, v)]"
| "Map_set k v ((k', v') # m) =
     (if k' = k then (k, v) # m else (k', v') # Map_set k v m)"

text \<open>\<open>new Map(entries)\<close> sets the entries one after the other, starting empty.\<close>

definition Map_new :: "('k \<times> 'v) list \<Rightarrow> ('k, 'v) js_map" where
  "Map_new es = foldl (\<lambda>m (k, v). Map_set k v m) [] es"

section \<open>Data model\<close>

text \<open>\<open>Geometry.Rect\<close> of the engine, built from \<open>left\<close>, \<open>top\<close>, \<open>width\<close>, \<open>height\<close>.\<close>

record Rect =
  rectLeft :: number
  rectTop :: number
  rectWidth :: number
  rectHeight :: number

text \<open>A text block of a comparison operation: \<open>rect\<close> is the array
  \<open>[left, top, width, height]\<close>.\<close>

record text_block =
  rect :: "number \<times> number \<times> number \<times> number"

datatype op_type = Equal | Delete | Insert

record operation =
  opType :: op_type
  opText :: string
  originalTextBlocks :: "text_block list"
  changedTextBlocks :: "text_block list"

record hunk =
  operations :: "operation list"

record comparison =
  hunks :: "hunk list"

record doc_comparison =
  comparisonResults :: "comparison list"

text \<open>What \<open>instance.compareDocuments\<close> hands back for one page: a falsy value, an object
  without the \<open>documentComparisonResults\<close> collection, or the collection. (The call is
  typed to return an object, so a truthy primitive, on which \<open>in\<close> would throw, is left
  out.)\<close>

datatype comparison_result =
  Falsy
| NoCollection
| DocumentComparisonResults "doc_comparison list"

text \<open>The interface \<open>ChangeOperation\<close>; every field is optional.\<close>

record change_operation =
  deleteText :: "string option"
  insertText :: "string option"
  del :: "bool option"
  insertFlag :: "bool option"
  pageIndex :: "nat option"
  originalRect :: "Rect option"
  changedRect :: "Rect option"
  annotationIds :: "string list option"

definition empty_change :: change_operation where
  "empty_change =
     \<lparr>deleteText = None, insertText = None, del = None, insertFlag = None,
      pageIndex = None, originalRect = None, changedRect = None, annotationIds = None\<rparr>"

type_synonym changes_map = "(string, change_operation) js_map"

type_synonym color = "nat \<times> nat \<times> nat"

definition deleteHighlightColor :: color where
  "deleteHighlightColor = (255, 201, 203)"

definition insertHighlightColor :: color where
  "insertHighlightColor = (192, 216, 239)"

datatype annotation =
  HighlightAnnotation nat "Rect list" color
| RectangleAnnotation nat Rect color nat

section \<open>The external engine\<close>

datatype zoom = ZoomNumber number | ZoomMode string

record view_state =
  currentPageIndex :: nat
  zoom :: zoom

record scroll_element =
  scrollTop :: number
  scrollLeft :: number

text \<open>The engine's answer to one \<open>create\<close> call: the identifiers of the annotations it
  created (possibly none), or a rejection.\<close>

datatype create_response = Created "string list" | Rejected

text \<open>
  Modelled from the spec: the viewer instance of the external engine, of which the
  repository holds only the calls. It has a view state (page index and zoom), the scroll
  container \<open>.PSPDFKit-Scroll\<close> once it is rendered, the heights of its pages, the
  annotations it stores under their identifiers, and the answers it will give to the
  coming \<open>create\<close> calls (a call beyond the script is rejected).
\<close>

record viewer_instance =
  viewState :: view_state
  scrollContainer :: "scroll_element option"
  pageHeights :: "number list"
  annotations :: "(string \<times> annotation) list"
  createResponses :: "create_response list"

definition totalPageCount :: "viewer_instance \<Rightarrow> nat" where
  "totalPageCount inst = length (pageHeights inst)"

definition pageInfoForIndex :: "viewer_instance \<Rightarrow> nat \<Rightarrow> number option" where
  "pageInfoForIndex inst i =
     (if i < length (pageHeights inst) then Some (pageHeights inst ! i) else None)"

definition create :: "annotation \<Rightarrow> viewer_instance \<Rightarrow> exn + (string list \<times> viewer_instance)" where
  "create a inst =
     (case createResponses inst of
        [] \<Rightarrow> Inl EngineRejected
      | Rejected # rs \<Rightarrow> Inl EngineRejected
      | Created ids # rs \<Rightarrow>
          Inr (ids, inst\<lparr>annotations := annotations inst @ map (\<lambda>i. (i, a)) ids,
                         createResponses := rs\<rparr>))"

text \<open>\<open>instance.delete(id)\<close> fails when the instance holds no annotation of that
  identifier.\<close>

definition delete :: "string \<Rightarrow> viewer_instance \<Rightarrow> exn + viewer_instance" where
  "delete i inst =
     (if i \<in> fst ` set (annotations inst)
      then Inr (inst\<lparr>annotations := filter (\<lambda>(j, a). j \<noteq> i) (annotations inst)\<rparr>)
      else Inl AnnotationNotFound)"

text \<open>\<open>instance.setViewState\<close> replaces the whole view state. It is taken to throw on a
  page index the document does not have; this is the way an engine call of the
  synchroniser can fail here.\<close>

definition setViewState :: "view_state \<Rightarrow> viewer_instance \<Rightarrow> exn + viewer_instance" where
  "setViewState v inst =
     (if currentPageIndex v < totalPageCount inst then Inr (inst\<lparr>viewState := v\<rparr>)
      else Inl InvalidViewState)"

section \<open>State of the page component\<close>

datatype side = Original | Changed

text \<open>
  The two viewer instances live in \<open>originalInstance\<close> and \<open>changedInstance\<close>; the refs
  \<open>originalInstanceRef\<close> and \<open>changedInstanceRef\<close> are null or point to them. The other
  fields are the \<open>useState\<close> and \<open>useRef\<close> cells of \<open>Page\<close>, but for \<open>syncingWrites\<close>: a
  history variable, absent from the source, that lists the values assigned to
  \<open>isSyncingRef.current\<close> in the order of the assignments.
\<close>

record page_st =
  operationsMap :: changes_map
  selectedChangeIndex :: int
  isScrollLocked :: bool
  isScrollLockedRef :: bool
  isSyncingRef :: bool
  syncingWrites :: "bool list"
  operationsRef :: changes_map
  originalInstance :: viewer_instance
  changedInstance :: viewer_instance
  originalInstanceRef :: "side option"
  changedInstanceRef :: "side option"
  selectionAnnotationIdsRef :: "string list"
  annotationToChangeIndexRef :: "(string, nat) js_map"

definition instance_of :: "side \<Rightarrow> page_st \<Rightarrow> viewer_instance" where
  "instance_of sd s = (case sd of Original \<Rightarrow> originalInstance s | Changed \<Rightarrow> changedInstance s)"

definition put_instance :: "side \<Rightarrow> viewer_instance \<Rightarrow> page_st \<Rightarrow> page_st" where
  "put_instance sd inst s =
     (case sd of Original \<Rightarrow> s\<lparr>originalInstance := inst\<rparr>
               | Changed \<Rightarrow> s\<lparr>changedInstance := inst\<rparr>)"

definition create_on :: "side \<Rightarrow> annotation \<Rightarrow> page_st \<Rightarrow> exn + (string list \<times> page_st)" where
  "create_on sd a s =
     (case create a (instance_of sd s) of
        Inl e \<Rightarrow> Inl e
      | Inr (created, inst) \<Rightarrow> Inr (created, put_instance sd inst s))"

section \<open>Change aggregator\<close>

text \<open>The template literal \<open>`${rect[0]},${rect[1]}`\<close>.\<close>

definition coordinateKey :: "number \<times> number \<times> number \<times> number \<Rightarrow> string" where
  "coordinateKey r =
     (case r of (x, y, w, h) \<Rightarrow> number_toString x @ '','' @ number_toString y)"

definition Rect_of :: "number \<times> number \<times> number \<times> number \<Rightarrow> Rect" where
  "Rect_of r =
     (case r of (x, y, w, h) \<Rightarrow>
        \<lparr>rectLeft = x, rectTop = y, rectWidth = w, rectHeight = h\<rparr>)"

text \<open>\<open>created.length > 0 ? created[0].id : null\<close>, then
  \<open>annotationId ? [annotationId] : []\<close>: an empty identifier is falsy.\<close>

definition annotationId_of :: "string list \<Rightarrow> string option" where
  "annotationId_of created = (case created of [] \<Rightarrow> None | i # _ \<Rightarrow> Some i)"

definition id_list :: "string option \<Rightarrow> string list" where
  "id_list annotationId =
     (case annotationId of None \<Rightarrow> [] | Some i \<Rightarrow> (if i = [] then [] else [i]))"

text \<open>\<open>existing.annotationIds || []\<close>.\<close>

definition ids_or_empty :: "string list option \<Rightarrow> string list" where
  "ids_or_empty ids = (case ids of None \<Rightarrow> [] | Some l \<Rightarrow> l)"

text \<open>
  \<open>processOperation\<close> of the page loop: a standalone delete or insert. The page's map
  \<open>changes\<close> is threaded beside the component state. Reading \<open>[0].rect\<close> of an empty
  list of text blocks is a \<open>TypeError\<close>.
\<close>

definition processOperation ::
  "nat \<Rightarrow> operation \<Rightarrow> changes_map \<times> page_st \<Rightarrow> exn + (changes_map \<times> page_st)" where
  "processOperation pgIndex operation cs =
     (case cs of (changes, s) \<Rightarrow>
      (case opType operation of
         Delete \<Rightarrow>
           (case originalTextBlocks operation of
              [] \<Rightarrow> Inl TypeError
            | tb # _ \<Rightarrow>
               (let coordinate = coordinateKey (rect tb);
                    origRect = Rect_of (rect tb);
                    ann = HighlightAnnotation pgIndex [origRect] deleteHighlightColor
                in case create_on Original ann s of
                     Inl e \<Rightarrow> Inl e
                   | Inr (created, s') \<Rightarrow>
                      (let annotationId = annotationId_of created
                       in case Map_get changes coordinate of
                            Some existing \<Rightarrow>
                              Inr (Map_set coordinate
                                     (existing\<lparr>deleteText := Some (opText operation),
                                               del := Some True,
                                               pageIndex := Some pgIndex,
                                               originalRect := Some origRect,
                                               annotationIds :=
                                                 Some (ids_or_empty (annotationIds existing)
                                                       @ id_list annotationId)\<rparr>)
                                     changes, s')
                          | None \<Rightarrow>
                              Inr (Map_set coordinate
                                     (empty_change\<lparr>deleteText := Some (opText operation),
                                                   del := Some True,
                                                   pageIndex := Some pgIndex,
                                                   originalRect := Some origRect,
                                                   annotationIds := Some (id_list annotationId)\<rparr>)
                                     changes, s'))))
       | Insert \<Rightarrow>
           (case changedTextBlocks operation of
              [] \<Rightarrow> Inl TypeError
            | tb # _ \<Rightarrow>
               (let coordinate = coordinateKey (rect tb);
                    chgRect = Rect_of (rect tb);
                    ann = HighlightAnnotation pgIndex [chgRect] insertHighlightColor
                in case create_on Changed ann s of
                     Inl e \<Rightarrow> Inl e
                   | Inr (created, s') \<Rightarrow>
                      (let annotationId = annotationId_of created
                       in case Map_get changes coordinate of
                            Some existing \<Rightarrow>
                              Inr (Map_set coordinate
                                     (existing\<lparr>insertText := Some (opText operation),
                                               insertFlag := Some True,
                                               pageIndex := Some pgIndex,
                                               changedRect := Some chgRect,
                                               annotationIds :=
                                                 Some (ids_or_empty (annotationIds existing)
                                                       @ id_list annotationId)\<rparr>)
                                     changes, s')
                          | None \<Rightarrow>
                              Inr (Map_set coordinate
                                     (empty_change\<lparr>insertText := Some (opText operation),
                                                   insertFlag := Some True,
                                                   pageIndex := Some pgIndex,
                                                   changedRect := Some chgRect,
                                                   annotationIds := Some (id_list annotationId)\<rparr>)
                                     changes, s'))))
       | Equal \<Rightarrow> Inr (changes, s)))"

text \<open>The branch of the cursor loop for a delete followed by an insert: both
  annotations are created and one entry is stored under the delete's key.\<close>

definition processReplacement ::
  "nat \<Rightarrow> operation \<Rightarrow> operation \<Rightarrow> changes_map \<times> page_st \<Rightarrow> exn + (changes_map \<times> page_st)" where
  "processReplacement pgIndex deleteOp insertOp cs =
     (case cs of (changes, s) \<Rightarrow>
      (case originalTextBlocks deleteOp of
         [] \<Rightarrow> Inl TypeError
       | dtb # _ \<Rightarrow>
          (let coordinate = coordinateKey (rect dtb);
               origRect = Rect_of (rect dtb)
           in case changedTextBlocks insertOp of
                [] \<Rightarrow> Inl TypeError
              | itb # _ \<Rightarrow>
                 (let chgRect = Rect_of (rect itb);
                      deleteAnnotation =
                        HighlightAnnotation pgIndex [origRect] deleteHighlightColor
                  in case create_on Original deleteAnnotation s of
                       Inl e \<Rightarrow> Inl e
                     | Inr (createdDelete, s1) \<Rightarrow>
                        (let deleteAnnotationId = annotationId_of createdDelete;
                             insertAnnotation =
                               HighlightAnnotation pgIndex [chgRect] insertHighlightColor
                         in case create_on Changed insertAnnotation s1 of
                              Inl e \<Rightarrow> Inl e
                            | Inr (createdInsert, s2) \<Rightarrow>
                               (let insertAnnotationId = annotationId_of createdInsert
                                in Inr (Map_set coordinate
                                          \<lparr>deleteText = Some (opText deleteOp),
                                           insertText = Some (opText insertOp),
                                           del = Some True,
                                           insertFlag = Some True,
                                           pageIndex = Some pgIndex,
                                           originalRect = Some origRect,
                                           changedRect = Some chgRect,
                                           annotationIds =
                                             Some (id_list deleteAnnotationId
                                                   @ id_list insertAnnotationId)\<rparr>
                                          changes, s2)))))))"

text \<open>One turn of the \<open>while (i < operations.length)\<close> loop, from cursor \<open>i\<close>: the new
  cursor and state.\<close>

definition loop_step ::
  "nat \<Rightarrow> operation list \<Rightarrow> nat \<Rightarrow> changes_map \<times> page_st
     \<Rightarrow> exn + (nat \<times> changes_map \<times> page_st)" where
  "loop_step pgIndex ops i cs =
     (let currentOp = ops ! i
      in if opType currentOp = Delete \<and> i + 1 < length ops \<and> opType (ops ! (i + 1)) = Insert
         then (case processReplacement pgIndex currentOp (ops ! (i + 1)) cs of
                 Inl e \<Rightarrow> Inl e
               | Inr cs' \<Rightarrow> Inr (i + 2, cs'))
         else (case processOperation pgIndex currentOp cs of
                 Inl e \<Rightarrow> Inl e
               | Inr cs' \<Rightarrow> Inr (i + 1, cs')))"

function cursor_loop ::
  "nat \<Rightarrow> operation list \<Rightarrow> nat \<Rightarrow> changes_map \<times> page_st \<Rightarrow> exn + (changes_map \<times> page_st)" where
  "cursor_loop pgIndex ops i cs =
     (if i < length ops
      then (case loop_step pgIndex ops i cs of
              Inl e \<Rightarrow> Inl e
            | Inr (i', cs') \<Rightarrow> cursor_loop pgIndex ops i' cs')
      else Inr cs)"
  by pat_completeness auto
termination
  by (relation "measure (\<lambda>(pgIndex, ops, i, cs). length ops - i)")
     (auto simp: loop_step_def Let_def split: if_splits sum.splits)

declare cursor_loop.simps [simp del]

text \<open>The body of \<open>for (const hunk of result.hunks)\<close>: the \<open>equal\<close> operations are
  filtered out, then the cursor walks the rest.\<close>

definition processHunk ::
  "nat \<Rightarrow> hunk \<Rightarrow> changes_map \<times> page_st \<Rightarrow> exn + (changes_map \<times> page_st)" where
  "processHunk pgIndex h cs =
     cursor_loop pgIndex (filter (\<lambda>op. opType op \<noteq> Equal) (operations h)) 0 cs"

text \<open>A \<open>for ... of\<close> loop whose body may throw.\<close>

fun for_of :: "('a \<Rightarrow> 's \<Rightarrow> exn + 's) \<Rightarrow> 'a list \<Rightarrow> 's \<Rightarrow> exn + 's" where
  "for_of body [] s = Inr s"
| "for_of body (x # xs) s =
     (case body x s of Inl e \<Rightarrow> Inl e | Inr s' \<Rightarrow> for_of body xs s')"

text \<open>The body of the page loop of \<open>compareDocuments\<close>, from the comparison result on.
  First the page's own map: a fresh \<open>changes\<close> and the three nested loops under the shape
  test.\<close>

definition pageChanges ::
  "nat \<Rightarrow> comparison_result \<Rightarrow> page_st \<Rightarrow> exn + (changes_map \<times> page_st)" where
  "pageChanges pgIndex comparisonResult s =
     (case comparisonResult of
        DocumentComparisonResults dcs \<Rightarrow>
          for_of (\<lambda>docComparison.
            for_of (\<lambda>result.
              for_of (processHunk pgIndex) (hunks result))
            (comparisonResults docComparison)) dcs ([], s)
      | _ \<Rightarrow> Inr ([], s))"

text \<open>Then the merge
  \<open>operationsRef.current = new Map([...operationsRef.current, ...changes])\<close>.\<close>

definition processPage :: "nat \<Rightarrow> comparison_result \<Rightarrow> page_st \<Rightarrow> exn + page_st" where
  "processPage pgIndex comparisonResult s =
     (case pageChanges pgIndex comparisonResult s of
        Inl e \<Rightarrow> Inl e
      | Inr (changes, s') \<Rightarrow>
          Inr (s'\<lparr>operationsRef := Map_new (operationsRef s' @ changes)\<rparr>))"

text \<open>\<open>for (let pageIndex = 0; pageIndex < totalPageCount; pageIndex++)\<close>: the list holds
  the comparison results the engine returns for the pages from \<open>pgIndex\<close> on.\<close>

fun pageLoop :: "nat \<Rightarrow> comparison_result list \<Rightarrow> page_st \<Rightarrow> exn + page_st" where
  "pageLoop pgIndex [] s = Inr s"
| "pageLoop pgIndex (r # rs) s =
     (case processPage pgIndex r s of
        Inl e \<Rightarrow> Inl e
      | Inr s' \<Rightarrow> pageLoop (Suc pgIndex) rs s')"

text \<open>After the loop \<open>compareDocuments\<close> rebuilds the lookup from annotation identifier to
  change index, flattening \<open>operationsRef\<close> in insertion order.\<close>

definition buildAnnotationMap :: "changes_map \<Rightarrow> (string, nat) js_map" where
  "buildAnnotationMap m =
     foldl (\<lambda>acc (index, kv).
              (case annotationIds (snd kv) of
                 None \<Rightarrow> acc
               | Some ids \<Rightarrow> foldl (\<lambda>acc' annotationId. Map_set annotationId index acc') acc ids))
       [] (zip [0..<length m] m)"

text \<open>\<open>compareDocuments\<close> once both viewers are loaded: the refs are set, the pages are
  processed in turn, then the sidebar state and the annotation lookup are refreshed.\<close>

definition compareDocuments :: "comparison_result list \<Rightarrow> page_st \<Rightarrow> exn + page_st" where
  "compareDocuments results s =
     (case pageLoop 0 results
             (s\<lparr>originalInstanceRef := Some Original, changedInstanceRef := Some Changed\<rparr>) of
        Inl e \<Rightarrow> Inl e
      | Inr s' \<Rightarrow>
          Inr (s'\<lparr>operationsMap := Map_new (operationsRef s'),
                  annotationToChangeIndexRef := buildAnnotationMap (operationsRef s')\<rparr>))"

subsection \<open>The earlier page component\<close>

text \<open>
  \<open>src/app/page.tsx\<close> holds an earlier \<open>processOperation\<close>: it takes the key of every
  operation from the first changed-document text block, collects the rectangles to
  highlight in two lists, and records no annotation identifier.
\<close>

definition processOperation_app_page ::
  "nat \<Rightarrow> operation \<Rightarrow> changes_map \<times> Rect list \<times> Rect list
     \<Rightarrow> exn + (changes_map \<times> Rect list \<times> Rect list)" where
  "processOperation_app_page pgIndex operation st =
     (case st of (changes, originalInstanceRects, changedInstanceRects) \<Rightarrow>
      (case changedTextBlocks operation of
         [] \<Rightarrow> Inl TypeError
       | ctb # _ \<Rightarrow>
          (let coordinate = coordinateKey (rect ctb)
           in case opType operation of
                Delete \<Rightarrow>
                  (case originalTextBlocks operation of
                     [] \<Rightarrow> Inl TypeError
                   | otb # _ \<Rightarrow>
                       Inr (Map_set coordinate
                              ((case Map_get changes coordinate of
                                  Some existing \<Rightarrow> existing
                                | None \<Rightarrow> empty_change)
                               \<lparr>deleteText := Some (opText operation),
                                del := Some True,
                                pageIndex := Some pgIndex\<rparr>) changes,
                            originalInstanceRects @ [Rect_of (rect otb)],
                            changedInstanceRects))
              | Insert \<Rightarrow>
                  Inr (Map_set coordinate
                         ((case Map_get changes coordinate of
                             Some existing \<Rightarrow> existing
                           | None \<Rightarrow> empty_change)
                          \<lparr>insertText := Some (opText operation),
                           insertFlag := Some True,
                           pageIndex := Some pgIndex\<rparr>) changes,
                       originalInstanceRects,
                       changedInstanceRects @ [Rect_of (rect ctb)])
              | Equal \<Rightarrow> Inr (changes, originalInstanceRects, changedInstanceRects))))"

text \<open>Its walk over a hunk: \<open>hunk.operations.forEach\<close> with the test
  \<open>operation.type !== "equal"\<close>.\<close>

definition processHunk_app_page ::
  "nat \<Rightarrow> hunk \<Rightarrow> changes_map \<times> Rect list \<times> Rect list
     \<Rightarrow> exn + (changes_map \<times> Rect list \<times> Rect list)" where
  "processHunk_app_page pgIndex h st =
     for_of (\<lambda>operation st'.
               if opType operation \<noteq> Equal
               then processOperation_app_page pgIndex operation st'
               else Inr st')
       (operations h) st"

section \<open>Sidebar\<close>

text \<open>A character stands for the code unit of its number, so the texts are those of code
  units below 256. Among these \<open>\s\<close> and \<open>trim\<close> take for white space the space, the
  controls 9 to 13 and the no-break space.\<close>

definition is_space :: "char \<Rightarrow> bool" where
  "is_space c =
     (c \<in> set [CHR '' '', CHR 0x09, CHR 0x0A, CHR 0x0B, CHR 0x0C, CHR 0x0D, CHR 0xA0])"

definition trim :: "string \<Rightarrow> string" where
  "trim t = rev (dropWhile is_space (rev (dropWhile is_space t)))"

text \<open>\<open>split(/\s+/)\<close>: the pieces between the maximal runs of white space, the piece
  before a leading run and the piece after a trailing run included; the empty string
  gives one empty piece.\<close>

function split_from :: "string \<Rightarrow> string \<Rightarrow> string list" where
  "split_from piece [] = [piece]"
| "split_from piece (c # cs) =
     (if is_space c then piece # split_from [] (dropWhile is_space cs)
      else split_from (piece @ [c]) cs)"
  by pat_completeness auto
termination
  by (relation "measure (\<lambda>(piece, cs). length cs)")
     (auto simp: length_dropWhile_le less_Suc_eq_le)

definition split_whitespace :: "string \<Rightarrow> string list" where
  "split_whitespace t = split_from [] t"

text \<open>\<open>text ? text.trim().split(/\s+/).length : 0\<close>: \<open>undefined\<close> and the empty string are
  falsy.\<close>

definition countWords :: "string option \<Rightarrow> nat" where
  "countWords txt =
     (case txt of
        None \<Rightarrow> 0
      | Some t \<Rightarrow> (if t = [] then 0 else length (split_whitespace (trim t))))"

section \<open>Selection and navigation\<close>

definition zoomValue :: "zoom \<Rightarrow> number" where
  "zoomValue z = (case z of ZoomNumber n \<Rightarrow> n | ZoomMode m \<Rightarrow> 1)"

text \<open>The \<open>for\<close> loop of \<open>scrollToPage\<close> over the pages before the target.\<close>

definition cumulativeHeight :: "viewer_instance \<Rightarrow> nat \<Rightarrow> number" where
  "cumulativeHeight inst targetPageIndex =
     foldl (\<lambda>acc i.
              (case pageInfoForIndex inst i of
                 None \<Rightarrow> acc
               | Some h \<Rightarrow>
                   to_double
                     (to_double (acc + to_double (h * zoomValue (zoom (viewState inst))))
                      + 10)))
       0 [0..<targetPageIndex]"

text \<open>\<open>scrollToPage\<close>: \<open>scrollTo\<close> is taken to reach the offset it is given. The call of
  \<open>setViewState\<close> is the bare engine call: what the listeners of the view synchroniser
  do when it changes the page is described with the synchroniser, not here.\<close>

definition scrollToPage :: "side \<Rightarrow> nat \<Rightarrow> number \<Rightarrow> page_st \<Rightarrow> exn + page_st" where
  "scrollToPage sd targetPageIndex offsetTop s =
     (let inst = instance_of sd s
      in case scrollContainer inst of
           None \<Rightarrow> Inr s
         | Some sc \<Rightarrow>
            (let top = to_double (cumulativeHeight inst targetPageIndex + offsetTop);
                 inst' = inst\<lparr>scrollContainer := Some (sc\<lparr>scrollTop := top\<rparr>)\<rparr>
             in case setViewState ((viewState inst')\<lparr>currentPageIndex := targetPageIndex\<rparr>) inst' of
                  Inl e \<Rightarrow> Inl e
                | Inr inst'' \<Rightarrow> Inr (put_instance sd inst'' s)))"

text \<open>The loop of \<open>highlightSelectedChange\<close> that removes the previous selection border:
  each identifier is deleted from the original instance, on failure from the changed
  one, and a second failure is ignored.\<close>

fun removeSelection :: "side \<Rightarrow> side \<Rightarrow> string list \<Rightarrow> page_st \<Rightarrow> page_st" where
  "removeSelection orig chg [] s = s"
| "removeSelection orig chg (annotationId # ids) s =
     removeSelection orig chg ids
       (case delete annotationId (instance_of orig s) of
          Inr inst \<Rightarrow> put_instance orig inst s
        | Inl e \<Rightarrow>
           (case delete annotationId (instance_of chg s) of
              Inr inst \<Rightarrow> put_instance chg inst s
            | Inl e' \<Rightarrow> s))"

definition borderColor :: color where
  "borderColor = (59, 130, 246)"

definition expandedRect :: "Rect \<Rightarrow> Rect" where
  "expandedRect r =
     \<lparr>rectLeft = to_double (rectLeft r - 3), rectTop = to_double (rectTop r - 3),
      rectWidth = to_double (rectWidth r + 6), rectHeight = to_double (rectHeight r + 6)\<rparr>"

text \<open>One of the two border blocks of \<open>highlightSelectedChange\<close>, for the view \<open>sd\<close>.\<close>

definition addBorder ::
  "side \<Rightarrow> bool option \<Rightarrow> Rect option \<Rightarrow> nat option \<Rightarrow> page_st \<Rightarrow> exn + page_st" where
  "addBorder sd flag r pg s =
     (case (flag, r, pg) of
        (Some True, Some rc, Some p) \<Rightarrow>
          (case create_on sd (RectangleAnnotation p (expandedRect rc) borderColor 2) s of
             Inl e \<Rightarrow> Inl e
           | Inr (createdAnnotations, s') \<Rightarrow>
               (case createdAnnotations of
                  [] \<Rightarrow> Inr s'
                | i # _ \<Rightarrow>
                    Inr (s'\<lparr>selectionAnnotationIdsRef := selectionAnnotationIdsRef s' @ [i]\<rparr>)))
      | _ \<Rightarrow> Inr s)"

definition highlightSelectedChange :: "change_operation \<Rightarrow> page_st \<Rightarrow> exn + page_st" where
  "highlightSelectedChange operation s =
     (case (originalInstanceRef s, changedInstanceRef s) of
        (Some orig, Some chg) \<Rightarrow>
          (let s1 = (removeSelection orig chg (selectionAnnotationIdsRef s) s)
                      \<lparr>selectionAnnotationIdsRef := []\<rparr>
           in case addBorder orig (del operation) (originalRect operation)
                     (pageIndex operation) s1 of
                Inl e \<Rightarrow> Inl e
              | Inr s2 \<Rightarrow>
                  addBorder chg (insertFlag operation) (changedRect operation)
                    (pageIndex operation) s2)
      | _ \<Rightarrow> Inr s)"

text \<open>What \<open>handleChangeClick\<close>, \<open>handlePreviousChange\<close> and \<open>handleNextChange\<close> do once the
  index is set: scroll both views to the page of the change and draw its border.\<close>

definition showChange :: "change_operation \<Rightarrow> page_st \<Rightarrow> exn + page_st" where
  "showChange operation s =
     (case (pageIndex operation, originalInstanceRef s, changedInstanceRef s) of
        (Some p, Some orig, Some chg) \<Rightarrow>
          (case scrollToPage orig p 0 s of
             Inl e \<Rightarrow> Inl e
           | Inr s1 \<Rightarrow>
              (case scrollToPage chg p 0 s1 of
                 Inl e \<Rightarrow> Inl e
               | Inr s2 \<Rightarrow> highlightSelectedChange operation s2))
      | _ \<Rightarrow> Inr s)"

definition handleChangeClick :: "change_operation \<Rightarrow> int \<Rightarrow> page_st \<Rightarrow> exn + page_st" where
  "handleChangeClick operation index s = showChange operation (s\<lparr>selectedChangeIndex := index\<rparr>)"

text \<open>\<open>const [, operation] = changesArray[newIndex]\<close> throws when the index is beyond the
  array.\<close>

definition handlePreviousChange :: "page_st \<Rightarrow> exn + page_st" where
  "handlePreviousChange s =
     (let changesArray = operationsMap s
      in if selectedChangeIndex s > 0
         then (let newIndex = selectedChangeIndex s - 1;
                   s' = s\<lparr>selectedChangeIndex := newIndex\<rparr>
               in if nat newIndex < length changesArray
                  then showChange (snd (changesArray ! nat newIndex)) s'
                  else Inl TypeError)
         else Inr s)"

definition handleNextChange :: "page_st \<Rightarrow> exn + page_st" where
  "handleNextChange s =
     (let changesArray = operationsMap s
      in if selectedChangeIndex s < int (length changesArray) - 1
         then (let newIndex = selectedChangeIndex s + 1;
                   s' = s\<lparr>selectedChangeIndex := newIndex\<rparr>
               in if 0 \<le> newIndex \<and> nat newIndex < length changesArray
                  then showChange (snd (changesArray ! nat newIndex)) s'
                  else Inl TypeError)
         else Inr s)"

section \<open>View synchroniser\<close>


definition other :: "side \<Rightarrow> side" where
  "other sd = (case sd of Original \<Rightarrow> Changed | Changed \<Rightarrow> Original)"

text \<open>
  A listener is what runs when a view fires a view-state event: it gets the view that
  fired, and gives the new state and the exception it threw, if any. \<open>None\<close> stands for a
  chain of nested calls that ran beyond the depth allowed to it.
\<close>

type_synonym listener = "side \<Rightarrow> page_st \<Rightarrow> (page_st \<times> exn option) option"

text \<open>
  Modelled from the spec: \<open>setViewState\<close> of a view with its event listeners. The engine
  replaces the view state, then calls, before it returns, the listeners of
  \<open>viewState.currentPageIndex.change\<close> and of \<open>viewState.zoom.change\<close> when the page index,
  respectively the zoom, has changed. An exception of a listener reaches the caller.
\<close>

definition setViewState_on ::
  "listener \<Rightarrow> side \<Rightarrow> view_state \<Rightarrow> page_st \<Rightarrow> (page_st \<times> exn option) option" where
  "setViewState_on listeners sd v s =
     (let old = viewState (instance_of sd s)
      in case setViewState v (instance_of sd s) of
           Inl e \<Rightarrow> Some (s, Some e)
         | Inr inst \<Rightarrow>
            (let s1 = put_instance sd inst s
             in case (if currentPageIndex v \<noteq> currentPageIndex old
                      then listeners sd s1 else Some (s1, None)) of
                  None \<Rightarrow> None
                | Some (s2, Some e) \<Rightarrow> Some (s2, Some e)
                | Some (s2, None) \<Rightarrow>
                    (if zoom v \<noteq> zoom old then listeners sd s2 else Some (s2, None))))"

text \<open>
  The \<open>try\<close> block of \<open>syncChangedToOriginal\<close> (source \<open>Changed\<close>) and of
  \<open>syncOriginalToChanged\<close> (source \<open>Original\<close>); the two functions differ in nothing but the
  roles of the views. Both \<open>setViewState\<close> calls start from the target's view state as it
  was read at the top of the block.
\<close>

definition syncBody :: "listener \<Rightarrow> side \<Rightarrow> page_st \<Rightarrow> (page_st \<times> exn option) option" where
  "syncBody listeners src s =
     (let tgt = other src;
          sourceViewState = viewState (instance_of src s);
          targetViewState = viewState (instance_of tgt s);
          sourcePage = currentPageIndex sourceViewState;
          targetPage = currentPageIndex targetViewState
      in case (if zoom targetViewState \<noteq> zoom sourceViewState
               then setViewState_on listeners tgt
                      (targetViewState\<lparr>zoom := zoom sourceViewState\<rparr>) s
               else Some (s, None)) of
           None \<Rightarrow> None
         | Some (s1, Some e) \<Rightarrow> Some (s1, Some e)
         | Some (s1, None) \<Rightarrow>
             (if targetPage \<noteq> sourcePage
              then setViewState_on listeners tgt
                     (targetViewState\<lparr>currentPageIndex := sourcePage\<rparr>) s1
              else (case (scrollContainer (instance_of src s1),
                          scrollContainer (instance_of tgt s1)) of
                      (Some sourceScroll, Some targetScroll) \<Rightarrow>
                        Some (put_instance tgt
                                ((instance_of tgt s1)
                                   \<lparr>scrollContainer :=
                                      Some (targetScroll\<lparr>scrollTop := scrollTop sourceScroll,
                                                         scrollLeft := scrollLeft sourceScroll\<rparr>)\<rparr>)
                                s1, None)
                    | _ \<Rightarrow> Some (s1, None))))"

text \<open>
  The synchronisation handler registered on the view \<open>src\<close>, allowed \<open>depth\<close> nested
  calls: the test of the lock and of the guard, the guard set, the \<open>try\<close> block, and the
  \<open>finally\<close> that clears the guard whether the block threw or not. The listeners the
  engine calls during the block are the handlers themselves.
\<close>

primrec sync :: "nat \<Rightarrow> listener" where
  "sync 0 = (\<lambda>src s. None)"
| "sync (Suc depth) =
     (\<lambda>src s.
        if \<not> isScrollLockedRef s \<or> isSyncingRef s then Some (s, None)
        else (case syncBody (sync depth) src
                     (s\<lparr>isSyncingRef := True, syncingWrites := syncingWrites s @ [True]\<rparr>) of
                None \<Rightarrow> None
              | Some (s', e) \<Rightarrow>
                  Some (s'\<lparr>isSyncingRef := False,
                           syncingWrites := syncingWrites s' @ [False]\<rparr>, e)))"

declare sync.simps [simp del]






section \<open>Sample data\<close>

definition sample_instance :: viewer_instance where
  "sample_instance =
     \<lparr>viewState = \<lparr>currentPageIndex = 0, zoom = ZoomNumber 1\<rparr>,
      scrollContainer = Some \<lparr>scrollTop = 0, scrollLeft = 0\<rparr>,
      pageHeights = [792, 792, 792],
      annotations = [],
      createResponses = []\<rparr>"

definition sample_st :: page_st where
  "sample_st =
     \<lparr>operationsMap = [], selectedChangeIndex = 0, isScrollLocked = True,
      isScrollLockedRef = True, isSyncingRef = False, syncingWrites = [],
      operationsRef = [],
      originalInstance =
        sample_instance\<lparr>createResponses := [Created [''d1''], Created [''d2'']]\<rparr>,
      changedInstance =
        sample_instance\<lparr>createResponses := [Created [''i1''], Created [''i2'']]\<rparr>,
      originalInstanceRef = Some Original, changedInstanceRef = Some Changed,
      selectionAnnotationIdsRef = [], annotationToChangeIndexRef = []\<rparr>"

text \<open>An operation whose first text block has the given rectangle in either document.\<close>

definition sample_op ::
  "op_type \<Rightarrow> string \<Rightarrow> number \<times> number \<times> number \<times> number
     \<Rightarrow> number \<times> number \<times> number \<times> number \<Rightarrow> operation" where
  "sample_op ty t ro rc =
     \<lparr>opType = ty, opText = t, originalTextBlocks = [\<lparr>rect = ro\<rparr>],
      changedTextBlocks = [\<lparr>rect = rc\<rparr>]\<rparr>"

text \<open>The scenario of the specification: a delete and an insert at the same origin.\<close>

definition sample_pair :: "operation list" where
  "sample_pair =
     [sample_op Delete ''old text'' (10, 20, 50, 12) (10, 20, 50, 12),
      sample_op Insert ''new words'' (10, 20, 60, 12) (10, 20, 60, 12)]"

definition sample_replacement :: change_operation where
  "sample_replacement =
     \<lparr>deleteText = Some ''old text'', insertText = Some ''new words'',
      del = Some True, insertFlag = Some True, pageIndex = Some 0,
      originalRect =
        Some \<lparr>rectLeft = 10, rectTop = 20, rectWidth = 50, rectHeight = 12\<rparr>,
      changedRect =
        Some \<lparr>rectLeft = 10, rectTop = 20, rectWidth = 60, rectHeight = 12\<rparr>,
      annotationIds = Some [''d1'', ''i1'']\<rparr>"

text \<open>A page whose comparison holds one delete at the origin (10, 20), and the entry it
  leaves in the map.\<close>

definition sample_delete_page :: "string \<Rightarrow> comparison_result" where
  "sample_delete_page t =
     DocumentComparisonResults
       [\<lparr>comparisonResults =
           [\<lparr>hunks =
               [\<lparr>operations =
                   [sample_op Delete t (10, 20, 50, 12) (10, 20, 50, 12)]\<rparr>]\<rparr>]\<rparr>]"

definition sample_deleted :: "string \<Rightarrow> nat \<Rightarrow> string list \<Rightarrow> change_operation" where
  "sample_deleted t p ids =
     \<lparr>deleteText = Some t, insertText = None, del = Some True, insertFlag = None,
      pageIndex = Some p,
      originalRect =
        Some \<lparr>rectLeft = 10, rectTop = 20, rectWidth = 50, rectHeight = 12\<rparr>,
      changedRect = None, annotationIds = Some ids\<rparr>"

definition sample_equal :: operation where
  "sample_equal = sample_op Equal ''same'' (0, 0, 5, 5) (0, 0, 5, 5)"

text \<open>The keys of the map a step leaves, or its exception.\<close>

definition written_keys :: "exn + (changes_map \<times> 'a) \<Rightarrow> exn + string list" where
  "written_keys r = map_sum id (map fst \<circ> fst) r"

definition step_keys :: "exn + (nat \<times> changes_map \<times> page_st) \<Rightarrow> exn + (nat \<times> string list)" where
  "step_keys r = map_sum id (map_prod id (map fst \<circ> fst)) r"

text \<open>A delete at the origin (10, 20); one at an origin with fractions; one whose
  changed-document block lies elsewhere; the entry a standalone insert of the scenario
  leaves.\<close>

definition sample_delete :: "string \<Rightarrow> operation" where
  "sample_delete t = sample_op Delete t (10, 20, 50, 12) (10, 20, 50, 12)"

definition sample_fraction_delete :: operation where
  "sample_fraction_delete =
     sample_op Delete ''x'' (21 / 2, 81 / 4, 50, 12) (21 / 2, 81 / 4, 50, 12)"

definition sample_moved_delete :: operation where
  "sample_moved_delete = sample_op Delete ''x'' (10, 20, 50, 12) (30, 40, 50, 12)"

definition sample_inserted :: change_operation where
  "sample_inserted =
     \<lparr>deleteText = None, insertText = Some ''new words'', del = None,
      insertFlag = Some True, pageIndex = Some 0, originalRect = None,
      changedRect =
        Some \<lparr>rectLeft = 10, rectTop = 20, rectWidth = 60, rectHeight = 12\<rparr>,
      annotationIds = Some [''i1'']\<rparr>"


definition sample_paged :: page_st where
  "sample_paged =
     sample_st\<lparr>changedInstance :=
       sample_instance\<lparr>viewState := \<lparr>currentPageIndex = 2, zoom = ZoomNumber (3 / 2)\<rparr>\<rparr>\<rparr>"

definition sample_beyond :: page_st where
  "sample_beyond =
     sample_st\<lparr>changedInstance :=
       sample_instance\<lparr>viewState := \<lparr>currentPageIndex = 4, zoom = ZoomNumber 1\<rparr>,
                       pageHeights := [792, 792, 792, 792, 792]\<rparr>\<rparr>"

text \<open>The component state after page 0 of two pages that each hold a delete at the
  origin (10, 20).\<close>

definition sample_after_first :: page_st where
  "sample_after_first =
     sample_st\<lparr>operationsRef := [(''10,20'', sample_deleted ''first'' 0 [''d1''])],
                originalInstance :=
                  sample_instance
                    \<lparr>annotations :=
                       [(''d1'', HighlightAnnotation 0
                                  [\<lparr>rectLeft = 10, rectTop = 20, rectWidth = 50, rectHeight = 12\<rparr>]
                                  deleteHighlightColor)],
                     createResponses := [Created [''d2'']]\<rparr>\<rparr>"

section \<open>Auxiliary notions\<close>

text \<open>One step after another, the second skipped when the first throws; and the map a
  step leaves.\<close>

definition and_then :: "exn + 'a \<Rightarrow> ('a \<Rightarrow> exn + 'b) \<Rightarrow> exn + 'b" where
  "and_then r f = (case r of Inl e \<Rightarrow> Inl e | Inr x \<Rightarrow> f x)"

definition changes_of :: "exn + (changes_map \<times> 'a) \<Rightarrow> exn + changes_map" where
  "changes_of r = map_sum id fst r"

text \<open>What holds of the page's map and the component state all through a page: the map
  has distinct keys, and the global index is the one the page started with.\<close>

definition page_inv :: "changes_map \<Rightarrow> changes_map \<times> page_st \<Rightarrow> bool" where
  "page_inv index cs \<longleftrightarrow> distinct (map fst (fst cs)) \<and> operationsRef (snd cs) = index"

text \<open>The engine with no listener registered on the view-state events.\<close>

definition no_listeners :: listener where
  "no_listeners sd s = Some (s, None)"

text \<open>The key as the specification words it, built from the rounded origin.\<close>

definition spec_rounded_key :: "number \<times> number \<times> number \<times> number \<Rightarrow> string" where
  "spec_rounded_key r =
     (case r of (x, y, w, h) \<Rightarrow>
        number_toString (Math_round x) @ '','' @ number_toString (Math_round y))"

text \<open>The merge as the specification words it: each recorded field keeps its value, and
  the recorded identifiers are the first of the merged ones.\<close>

definition field_survives :: "'a option \<Rightarrow> 'a option \<Rightarrow> bool" where
  "field_survives recorded merged =
     (case recorded of None \<Rightarrow> True | Some v \<Rightarrow> merged = Some v)"

definition spec_nondestructive :: "change_operation \<Rightarrow> change_operation \<Rightarrow> bool" where
  "spec_nondestructive existing merged \<longleftrightarrow>
     field_survives (deleteText existing) (deleteText merged) \<and>
     field_survives (insertText existing) (insertText merged) \<and>
     field_survives (del existing) (del merged) \<and>
     field_survives (insertFlag existing) (insertFlag merged) \<and>
     field_survives (originalRect existing) (originalRect merged) \<and>
     field_survives (changedRect existing) (changedRect merged) \<and>
     take (length (ids_or_empty (annotationIds existing)))
          (ids_or_empty (annotationIds merged))
       = ids_or_empty (annotationIds existing)"

section \<open>Properties of the Map\<close>

lemma Map_get_set: "Map_get (Map_set k v m) k = Some v"
  by (induction m) auto

lemma Map_get_set_other: "k' \<noteq> k \<Longrightarrow> Map_get (Map_set k v m) k' = Map_get m k'"
  by (induction m) auto

lemma Map_has_get: "Map_has m k \<longleftrightarrow> Map_get m k \<noteq> None"
  by (induction m) auto

lemma length_Map_set:
  "length (Map_set k v m) = (if Map_has m k then length m else Suc (length m))"
  by (induction m) auto

section \<open>Properties of the engine calls\<close>

lemma create_on_Created:
  "createResponses (instance_of sd s) = Created ids # rs \<Longrightarrow>
   create_on sd a s =
     Inr (ids, put_instance sd
                 ((instance_of sd s)
                    \<lparr>annotations := annotations (instance_of sd s) @ map (\<lambda>i. (i, a)) ids,
                     createResponses := rs\<rparr>) s)"
  by (simp add: create_on_def create_def)

lemma sample_key_10_20: "coordinateKey (10, 20, w, h) = ''10,20''"
  by (simp add: coordinateKey_def) code_simp

section \<open>Replacement pairs\<close>

text \<open>
  Claim C1. When the operation at the cursor is a delete and the next one is an insert,
  and each carries the text block whose rectangle the claim speaks of, and the engine
  creates the two highlights, then the turn of the loop moves the cursor by two and sets
  one entry of the page's map, under the key of the delete's original rectangle: both
  texts, both flags true, both rectangles, and the two identifiers the engine returned,
  the delete's first. The map gains at most that one entry, and the two highlights are in
  the respective views.
\<close>

theorem replacement_pair_merged:
  assumes "opType (ops ! i) = Delete" and "i + 1 < length ops"
    and "opType (ops ! (i + 1)) = Insert"
    and "originalTextBlocks (ops ! i) = dtb # dtbs"
    and "changedTextBlocks (ops ! (i + 1)) = itb # itbs"
    and "createResponses (originalInstance s) = Created (idD # moreD) # rd"
    and "createResponses (changedInstance s) = Created (idI # moreI) # ri"
    and "idD \<noteq> []" and "idI \<noteq> []"
  shows "\<exists>changes' s'.
           loop_step pgIndex ops i (changes, s) = Inr (i + 2, changes', s') \<and>
           changes' =
             Map_set (coordinateKey (rect dtb))
               \<lparr>deleteText = Some (opText (ops ! i)),
                insertText = Some (opText (ops ! (i + 1))),
                del = Some True, insertFlag = Some True, pageIndex = Some pgIndex,
                originalRect = Some (Rect_of (rect dtb)),
                changedRect = Some (Rect_of (rect itb)),
                annotationIds = Some [idD, idI]\<rparr> changes \<and>
           length changes' \<le> Suc (length changes) \<and>
           (idD, HighlightAnnotation pgIndex [Rect_of (rect dtb)] deleteHighlightColor)
             \<in> set (annotations (originalInstance s')) \<and>
           (idI, HighlightAnnotation pgIndex [Rect_of (rect itb)] insertHighlightColor)
             \<in> set (annotations (changedInstance s'))"
  using assms
  by (simp add: loop_step_def processReplacement_def Let_def create_on_Created
        instance_of_def put_instance_def annotationId_of_def id_list_def length_Map_set)

text \<open>The scenario of the specification, on page 0 with an empty map: one turn of the
  loop, and the whole hunk, give the single entry keyed \<open>10,20\<close>.\<close>

theorem replacement_pair_merged_witness:
  "\<exists>s'. loop_step 0 sample_pair 0 ([], sample_st) =
           Inr (2, [(''10,20'', sample_replacement)], s') \<and>
         processHunk 0 \<lparr>operations = sample_pair\<rparr> ([], sample_st) =
           Inr ([(''10,20'', sample_replacement)], s')"
proof -
  have "\<exists>changes' s'.
           loop_step 0 sample_pair 0 ([], sample_st) = Inr (0 + 2, changes', s') \<and>
           changes' =
             Map_set (coordinateKey (rect \<lparr>rect = (10, 20, 50, 12)\<rparr>))
               \<lparr>deleteText = Some (opText (sample_pair ! 0)),
                insertText = Some (opText (sample_pair ! (0 + 1))),
                del = Some True, insertFlag = Some True, pageIndex = Some 0,
                originalRect = Some (Rect_of (rect \<lparr>rect = (10, 20, 50, 12)\<rparr>)),
                changedRect = Some (Rect_of (rect \<lparr>rect = (10, 20, 60, 12)\<rparr>)),
                annotationIds = Some [''d1'', ''i1'']\<rparr> [] \<and>
           length changes' \<le> Suc (length ([] :: changes_map)) \<and>
           (''d1'', HighlightAnnotation 0 [Rect_of (rect \<lparr>rect = (10, 20, 50, 12)\<rparr>)]
                     deleteHighlightColor)
             \<in> set (annotations (originalInstance s')) \<and>
           (''i1'', HighlightAnnotation 0 [Rect_of (rect \<lparr>rect = (10, 20, 60, 12)\<rparr>)]
                     insertHighlightColor)
             \<in> set (annotations (changedInstance s'))"
    by (rule replacement_pair_merged [where dtbs = "[]" and itbs = "[]" and moreD = "[]"
              and moreI = "[]" and rd = "[Created [''d2'']]" and ri = "[Created [''i2'']]"])
       (simp_all add: sample_pair_def sample_op_def sample_st_def sample_instance_def)
  then obtain s' where
    "loop_step 0 sample_pair 0 ([], sample_st) =
       Inr (2, Map_set (coordinateKey (10, 20, 50, 12))
               \<lparr>deleteText = Some (opText (sample_pair ! 0)),
                insertText = Some (opText (sample_pair ! 1)),
                del = Some True, insertFlag = Some True, pageIndex = Some 0,
                originalRect = Some (Rect_of (10, 20, 50, 12)),
                changedRect = Some (Rect_of (10, 20, 60, 12)),
                annotationIds = Some [''d1'', ''i1'']\<rparr> [], s')"
    by auto
  then have step:
    "loop_step 0 sample_pair 0 ([], sample_st) = Inr (2, [(''10,20'', sample_replacement)], s')"
    by (simp add: sample_pair_def sample_op_def sample_key_10_20 Rect_of_def
          sample_replacement_def)
  have len: "length sample_pair = 2"
    by (simp add: sample_pair_def)
  have "cursor_loop 0 sample_pair 0 ([], sample_st) =
          cursor_loop 0 sample_pair 2 ([(''10,20'', sample_replacement)], s')"
    by (subst cursor_loop.simps) (simp add: step len)
  also have "\<dots> = Inr ([(''10,20'', sample_replacement)], s')"
    by (subst cursor_loop.simps) (simp add: len)
  finally have "processHunk 0 \<lparr>operations = sample_pair\<rparr> ([], sample_st) =
                  Inr ([(''10,20'', sample_replacement)], s')"
    by (simp add: processHunk_def) (simp add: sample_pair_def sample_op_def)
  with step show ?thesis
    by blast
qed

section \<open>More on the Map\<close>

lemma Map_set_fresh: "k \<notin> fst ` set m \<Longrightarrow> Map_set k v m = m @ [(k, v)]"
  by (induction m) auto

lemma foldl_Map_set_distinct:
  "distinct (map fst (a @ es)) \<Longrightarrow> foldl (\<lambda>m (k, v). Map_set k v m) a es = a @ es"
proof (induction es arbitrary: a)
  case Nil
  then show ?case by simp
next
  case (Cons x es)
  obtain k v where x: "x = (k, v)" by (cases x)
  from Cons.prems have "k \<notin> fst ` set a" by (auto simp: x)
  then have "Map_set k v a = a @ [(k, v)]" by (rule Map_set_fresh)
  with Cons.IH [of "a @ [(k, v)]"] Cons.prems show ?case by (simp add: x)
qed

lemma Map_new_distinct: "distinct (map fst m) \<Longrightarrow> Map_new m = m"
  using foldl_Map_set_distinct [of "[]" m] by (simp add: Map_new_def)

lemma keys_Map_set:
  "map fst (Map_set k v m) = (if Map_has m k then map fst m else map fst m @ [k])"
  by (induction m) auto

lemma Map_has_keys: "Map_has m k \<longleftrightarrow> k \<in> set (map fst m)"
  by (induction m) auto

lemma distinct_Map_set: "distinct (map fst m) \<Longrightarrow> distinct (map fst (Map_set k v m))"
  by (simp add: keys_Map_set Map_has_keys)

lemma distinct_foldl_Map_set:
  "distinct (map fst a) \<Longrightarrow> distinct (map fst (foldl (\<lambda>m (k, v). Map_set k v m) a es))"
  by (induction es arbitrary: a) (auto simp: distinct_Map_set)

lemma distinct_Map_new: "distinct (map fst (Map_new es))"
  by (simp add: Map_new_def distinct_foldl_Map_set)

lemma Map_get_append:
  "Map_get (xs @ ys) k = (case Map_get xs k of Some v \<Rightarrow> Some v | None \<Rightarrow> Map_get ys k)"
  by (induction xs) auto

text \<open>Of several entries with one key, \<open>new Map\<close> keeps the value of the last.\<close>

lemma Map_get_foldl:
  "Map_get (foldl (\<lambda>m (k, v). Map_set k v m) a es) k =
     (case Map_get (rev es) k of Some v \<Rightarrow> Some v | None \<Rightarrow> Map_get a k)"
proof (induction es arbitrary: a)
  case Nil
  then show ?case by simp
next
  case (Cons x es)
  obtain k' v' where x: "x = (k', v')" by (cases x)
  show ?case
    by (simp add: Cons.IH x Map_get_append Map_get_set Map_get_set_other split: option.splits)
qed

lemma Map_get_rev: "distinct (map fst m) \<Longrightarrow> Map_get (rev m) k = Map_get m k"
proof (induction m)
  case Nil
  then show ?case by simp
next
  case (Cons x m)
  obtain k' v' where x: "x = (k', v')" by (cases x)
  from Cons.prems have "k' \<notin> fst ` set m" by (auto simp: x)
  then have "Map_get m k' = None"
    by (induction m) auto
  with Cons show ?case
    by (auto simp: x Map_get_append split: option.splits)
qed

lemma Map_get_Map_new_append:
  "distinct (map fst c) \<Longrightarrow>
   Map_get (Map_new (g @ c)) k =
     (case Map_get c k of Some v \<Rightarrow> Some v | None \<Rightarrow> Map_get (Map_new g) k)"
  by (simp add: Map_new_def Map_get_foldl Map_get_append Map_get_rev split: option.splits)

lemma count_key_distinct:
  "distinct (map fst m) \<Longrightarrow> Map_get m k = Some v \<Longrightarrow> length (filter (\<lambda>e. fst e = k) m) = 1"
proof (induction m)
  case Nil
  then show ?case by simp
next
  case (Cons x m)
  have none: "k \<notin> fst ` set m \<Longrightarrow> filter (\<lambda>e. fst e = k) m = []"
    by (induction m) auto
  from Cons show ?case
    by (cases x) (auto simp: none split: if_splits)
qed

section \<open>Loops\<close>

lemma for_of_append:
  "for_of body (xs @ ys) s =
     (case for_of body xs s of Inl e \<Rightarrow> Inl e | Inr s' \<Rightarrow> for_of body ys s')"
  by (induction xs arbitrary: s) (auto split: sum.splits)

lemma cursor_loop_Nil: "cursor_loop pgIndex [] i cs = Inr cs"
  by (subst cursor_loop.simps) simp

section \<open>Equal operations\<close>

text \<open>
  Claim C10. An operation tagged \<open>equal\<close> leaves no trace: taking it out of a hunk, at
  any place, changes neither the map nor the views nor the outcome; a hunk of nothing but
  \<open>equal\<close> operations returns the map and the component state as they were; and
  \<open>processOperation\<close> itself has no case for it. The same holds for the walk of
  \<open>src/app/page.tsx\<close>.
\<close>

theorem equal_operations_ignored:
  assumes "opType e = Equal" and "list_all (\<lambda>op. opType op = Equal) es"
  shows "processHunk pgIndex \<lparr>operations = xs @ e # ys\<rparr> cs =
           processHunk pgIndex \<lparr>operations = xs @ ys\<rparr> cs \<and>
         processHunk pgIndex \<lparr>operations = es\<rparr> cs = Inr cs \<and>
         processOperation pgIndex e cs = Inr cs \<and>
         processHunk_app_page pgIndex \<lparr>operations = xs @ e # ys\<rparr> st =
           processHunk_app_page pgIndex \<lparr>operations = xs @ ys\<rparr> st \<and>
         processHunk_app_page pgIndex \<lparr>operations = es\<rparr> st = Inr st"
proof -
  from assms(2) have none: "filter (\<lambda>op. opType op \<noteq> Equal) es = []"
    by (induction es) auto
  from assms(2) have old:
    "for_of (\<lambda>operation st'.
               if opType operation \<noteq> Equal
               then processOperation_app_page pgIndex operation st'
               else Inr st') es st = Inr st"
    by (induction es) auto
  show ?thesis
    using assms(1) none old
    by (cases cs)
       (simp add: processHunk_def processHunk_app_page_def cursor_loop_Nil
          processOperation_def for_of_append split: sum.splits)
qed

theorem equal_operations_ignored_witness:
  "processHunk 0 \<lparr>operations = [sample_pair ! 0, sample_equal, sample_pair ! 1]\<rparr>
       ([], sample_st) =
     processHunk 0 \<lparr>operations = sample_pair\<rparr> ([], sample_st) \<and>
   processHunk 0 \<lparr>operations = [sample_equal, sample_equal]\<rparr> ([], sample_st) =
     Inr ([], sample_st)"
  using equal_operations_ignored [of sample_equal "[sample_equal, sample_equal]"
      0 "[sample_pair ! 0]" "[sample_pair ! 1]" "([], sample_st)"]
  by (simp add: sample_op_def sample_pair_def sample_equal_def)

section \<open>Pages without the result collection\<close>

text \<open>
  Claim C9. A page whose comparison result is falsy, or is an object without
  \<open>documentComparisonResults\<close>, is passed over: the body of the page loop returns
  normally with the component state as it was (the global index, a Map, keeps its
  entries; no annotation is created), and the loop goes on with the next page index.
\<close>

theorem missing_collection_page_skipped:
  assumes "r = Falsy \<or> r = NoCollection"
    and "distinct (map fst (operationsRef s))"
  shows "processPage pgIndex r s = Inr s \<and>
         pageLoop pgIndex (r # rs) s = pageLoop (Suc pgIndex) rs s"
  using assms by (auto simp: processPage_def pageChanges_def Map_new_distinct)

theorem missing_collection_page_skipped_witness:
  "processPage 0 NoCollection sample_st = Inr sample_st \<and>
   pageLoop 0 [NoCollection, sample_delete_page ''first''] sample_st =
     pageLoop 1 [sample_delete_page ''first''] sample_st"
  using missing_collection_page_skipped [of NoCollection sample_st 0
      "[sample_delete_page ''first'']"]
  by (simp add: sample_st_def)

section \<open>The global index\<close>

lemma keys_processOperation:
  "written_keys (processOperation p operation cs) =
   written_keys (processOperation q operation cs)"
  by (cases cs)
     (auto simp: written_keys_def processOperation_def Let_def create_on_def create_def
           keys_Map_set
           split: op_type.splits list.splits sum.splits option.splits create_response.splits)

lemma keys_processReplacement:
  "written_keys (processReplacement p deleteOp insertOp cs) =
   written_keys (processReplacement q deleteOp insertOp cs)"
  by (cases cs)
     (auto simp: written_keys_def processReplacement_def Let_def create_on_def create_def
           keys_Map_set instance_of_def put_instance_def
           split: list.splits sum.splits create_response.splits)

lemma keys_loop_step:
  "step_keys (loop_step p ops i cs) = step_keys (loop_step q ops i cs)"
proof -
  have a: "\<And>r. step_keys (case r of Inl e \<Rightarrow> Inl e | Inr cs' \<Rightarrow> Inr (j, cs')) =
             map_sum id (Pair j) (written_keys r)" for j
    by (auto simp: step_keys_def written_keys_def split: sum.splits)
  show ?thesis
    by (simp add: loop_step_def Let_def a keys_processOperation [of p _ _ q]
          keys_processReplacement [of p _ _ _ q])
qed

text \<open>The page's map keeps distinct keys and the loops leave the global index alone.\<close>

lemma operationsRef_create_on:
  "create_on sd a s = Inr (created, s') \<Longrightarrow> operationsRef s' = operationsRef s"
  by (auto simp: create_on_def put_instance_def split: sum.splits side.splits)

lemma page_inv_processOperation:
  "page_inv index cs \<Longrightarrow> processOperation p operation cs = Inr cs' \<Longrightarrow> page_inv index cs'"
  by (cases cs)
     (auto simp: page_inv_def processOperation_def Let_def distinct_Map_set
           dest!: operationsRef_create_on
           split: op_type.splits list.splits sum.splits option.splits)

lemma page_inv_processReplacement:
  "page_inv index cs \<Longrightarrow> processReplacement p deleteOp insertOp cs = Inr cs' \<Longrightarrow>
   page_inv index cs'"
  by (cases cs)
     (auto simp: page_inv_def processReplacement_def Let_def distinct_Map_set
           dest!: operationsRef_create_on
           split: list.splits sum.splits)

lemma page_inv_loop_step:
  "page_inv index cs \<Longrightarrow> loop_step p ops i cs = Inr (i', cs') \<Longrightarrow> page_inv index cs'"
  by (auto simp: loop_step_def Let_def split: if_splits sum.splits
           dest: page_inv_processOperation page_inv_processReplacement)

lemma page_inv_cursor_loop:
  "page_inv index cs \<Longrightarrow> cursor_loop p ops i cs = Inr cs' \<Longrightarrow> page_inv index cs'"
proof (induction p ops i cs rule: cursor_loop.induct)
  case (1 pgIndex ops i cs)
  show ?case
  proof (cases "i < length ops")
    case True
    with "1.prems"(2) obtain i' cs1 where
      step: "loop_step pgIndex ops i cs = Inr (i', cs1)"
      and rest: "cursor_loop pgIndex ops i' cs1 = Inr cs'"
      by (subst (asm) cursor_loop.simps) (auto split: sum.splits)
    from "1.prems"(1) step have "page_inv index cs1"
      by (rule page_inv_loop_step)
    with "1.IH" [OF True step refl] rest show ?thesis
      by blast
  next
    case False
    with "1.prems" show ?thesis
      by (subst (asm) cursor_loop.simps) simp
  qed
qed

lemma for_of_invariant:
  assumes "\<And>x s s'. P s \<Longrightarrow> body x s = Inr s' \<Longrightarrow> P s'"
  shows "P s \<Longrightarrow> for_of body xs s = Inr s' \<Longrightarrow> P s'"
  by (induction xs arbitrary: s) (auto split: sum.splits dest: assms)

lemma page_inv_pageChanges:
  assumes "pageChanges p r s = Inr cs'"
  shows "page_inv (operationsRef s) cs'"
proof -
  have start: "page_inv (operationsRef s) ([], s)"
    by (simp add: page_inv_def)
  have hunk: "page_inv index cs \<Longrightarrow> processHunk p h cs = Inr cs1 \<Longrightarrow> page_inv index cs1"
    for index cs h cs1
    unfolding processHunk_def by (rule page_inv_cursor_loop)
  have result: "page_inv index cs \<Longrightarrow> for_of (processHunk p) hs cs = Inr cs1 \<Longrightarrow>
      page_inv index cs1" for index cs hs cs1
    by (rule for_of_invariant [where P = "page_inv index" and body = "processHunk p"])
       (auto intro: hunk)
  have doc: "page_inv index cs \<Longrightarrow>
      for_of (\<lambda>result. for_of (processHunk p) (hunks result)) rs cs = Inr cs1 \<Longrightarrow>
      page_inv index cs1" for index cs rs cs1
    by (rule for_of_invariant [where P = "page_inv index"
          and body = "\<lambda>result. for_of (processHunk p) (hunks result)"])
       (auto intro: result)
  have all: "page_inv index cs \<Longrightarrow>
      for_of (\<lambda>docComparison.
            for_of (\<lambda>result. for_of (processHunk p) (hunks result))
              (comparisonResults docComparison)) dcs cs = Inr cs1 \<Longrightarrow>
      page_inv index cs1" for index cs dcs cs1
    by (rule for_of_invariant [where P = "page_inv index"
          and body = "\<lambda>docComparison.
            for_of (\<lambda>result. for_of (processHunk p) (hunks result))
              (comparisonResults docComparison)"])
       (auto intro: doc)
  from assms start show ?thesis
    by (auto simp: pageChanges_def split: comparison_result.splits intro: all)
qed

text \<open>
  Claim C6. Take a page of the page loop whose own map holds an entry under a key that
  the global index already holds, from an earlier page. The body of the loop returns
  normally, the loop goes on from the merged state, the new index is
  \<open>new Map([...operationsRef.current, ...changes])\<close>, and in it the key has one entry, the
  page's: the earlier page's entry is gone. The key a turn of the cursor loop writes
  under does not depend on the page index.
\<close>

theorem page_merge_overwrites_same_key:
  assumes "pageChanges q r s = Inr (changes, s1)"
    and "Map_get (operationsRef s) k = Some earlier"
    and "Map_get changes k = Some later"
  shows "\<exists>s'. processPage q r s = Inr s' \<and>
           pageLoop q (r # rs) s = pageLoop (Suc q) rs s' \<and>
           operationsRef s' = Map_new (operationsRef s @ changes) \<and>
           Map_get (operationsRef s') k = Some later \<and>
           length (filter (\<lambda>e. fst e = k) (operationsRef s')) = 1 \<and>
           step_keys (loop_step p ops i cs) = step_keys (loop_step q ops i cs)"
proof -
  from page_inv_pageChanges [OF assms(1)]
  have d: "distinct (map fst changes)" and o: "operationsRef s1 = operationsRef s"
    by (simp_all add: page_inv_def)
  let ?s' = "s1\<lparr>operationsRef := Map_new (operationsRef s1 @ changes)\<rparr>"
  have pp: "processPage q r s = Inr ?s'"
    using assms(1) by (simp add: processPage_def)
  have get: "Map_get (operationsRef ?s') k = Some later"
    using d assms(3) by (simp add: Map_get_Map_new_append)
  then have "length (filter (\<lambda>e. fst e = k) (operationsRef ?s')) = 1"
    using distinct_Map_new [of "operationsRef s1 @ changes"]
    by (intro count_key_distinct [where v = later]) simp_all
  with pp get o show ?thesis
    by (simp add: keys_loop_step [of p ops i cs q])
qed

text \<open>Two pages, each with a delete at the origin (10, 20): after page 0 the index holds
  the entry of page 0; after page 1 it holds the entry of page 1 alone.\<close>

lemmas page_eval =
  sample_delete_page_def sample_op_def sample_st_def sample_instance_def
  processPage_def pageChanges_def processHunk_def cursor_loop.simps loop_step_def
  processOperation_def Let_def create_on_def create_def instance_of_def put_instance_def
  sample_key_10_20 Map_new_def annotationId_of_def id_list_def ids_or_empty_def
  empty_change_def Rect_of_def sample_deleted_def sample_after_first_def

lemma sample_first_page:
  "processPage 0 (sample_delete_page ''first'') sample_st = Inr sample_after_first"
  by (simp add: page_eval)

lemma sample_second_changes:
  "\<exists>s1. pageChanges 1 (sample_delete_page ''second'') sample_after_first =
          Inr ([(''10,20'', sample_deleted ''second'' 1 [''d2''])], s1)"
  by (simp add: page_eval)

theorem page_merge_overwrites_same_key_witness:
  "Map_get (operationsRef sample_after_first) ''10,20'' =
     Some (sample_deleted ''first'' 0 [''d1'']) \<and>
   (\<exists>s'. pageLoop 0 [sample_delete_page ''first'', sample_delete_page ''second''] sample_st
            = Inr s' \<and>
      operationsRef s' = [(''10,20'', sample_deleted ''second'' 1 [''d2''])] \<and>
      Map_get (operationsRef s') ''10,20'' = Some (sample_deleted ''second'' 1 [''d2'']) \<and>
      length (filter (\<lambda>e. fst e = ''10,20'') (operationsRef s')) = 1)"
proof -
  obtain s1 where
    c: "pageChanges 1 (sample_delete_page ''second'') sample_after_first =
          Inr ([(''10,20'', sample_deleted ''second'' 1 [''d2''])], s1)"
    using sample_second_changes by blast
  have e: "Map_get (operationsRef sample_after_first) ''10,20'' =
     Some (sample_deleted ''first'' 0 [''d1''])"
    by (simp add: sample_after_first_def)
  have l: "Map_get [(''10,20'', sample_deleted ''second'' 1 [''d2''])] ''10,20'' =
     Some (sample_deleted ''second'' 1 [''d2''])"
    by simp
  from page_merge_overwrites_same_key [OF c e l, of "[]"]
  obtain s' where
    "processPage 1 (sample_delete_page ''second'') sample_after_first = Inr s'"
    "pageLoop 1 [sample_delete_page ''second''] sample_after_first = pageLoop (Suc 1) [] s'"
    "operationsRef s' =
       Map_new (operationsRef sample_after_first @
                [(''10,20'', sample_deleted ''second'' 1 [''d2''])])"
    "Map_get (operationsRef s') ''10,20'' = Some (sample_deleted ''second'' 1 [''d2''])"
    "length (filter (\<lambda>e. fst e = ''10,20'') (operationsRef s')) = 1"
    by blast
  then have "pageLoop 0 [sample_delete_page ''first'', sample_delete_page ''second''] sample_st
            = Inr s' \<and>
      operationsRef s' = [(''10,20'', sample_deleted ''second'' 1 [''d2''])] \<and>
      Map_get (operationsRef s') ''10,20'' = Some (sample_deleted ''second'' 1 [''d2'']) \<and>
      length (filter (\<lambda>e. fst e = ''10,20'') (operationsRef s')) = 1"
    by (simp add: sample_first_page) (simp add: sample_after_first_def Map_new_def)
  with e show ?thesis
    by blast
qed

section \<open>Navigation\<close>

text \<open>
  Claim C7. \<open>handlePreviousChange\<close> with the selected index at 0, and \<open>handleNextChange\<close>
  with the selected index at the last index of the change list, return the component
  state as it was: the index, the scroll offsets and view states of both views, and
  their annotations.
\<close>

theorem navigation_clamps:
  "(selectedChangeIndex s = 0 \<longrightarrow> handlePreviousChange s = Inr s) \<and>
   (selectedChangeIndex s = int (length (operationsMap s)) - 1 \<longrightarrow>
      handleNextChange s = Inr s)"
  by (simp add: handlePreviousChange_def handleNextChange_def)

theorem navigation_clamps_witness:
  "handlePreviousChange
     (sample_st\<lparr>operationsMap := [(''10,20'', sample_replacement), (''30,40'', sample_replacement)]\<rparr>)
     = Inr (sample_st\<lparr>operationsMap := [(''10,20'', sample_replacement), (''30,40'', sample_replacement)]\<rparr>) \<and>
   handleNextChange
     (sample_st\<lparr>operationsMap := [(''10,20'', sample_replacement), (''30,40'', sample_replacement)],
                selectedChangeIndex := 1\<rparr>)
     = Inr (sample_st\<lparr>operationsMap := [(''10,20'', sample_replacement), (''30,40'', sample_replacement)],
                     selectedChangeIndex := 1\<rparr>)"
  using navigation_clamps
          [of "sample_st\<lparr>operationsMap := [(''10,20'', sample_replacement), (''30,40'', sample_replacement)]\<rparr>"]
        navigation_clamps
          [of "sample_st\<lparr>operationsMap := [(''10,20'', sample_replacement), (''30,40'', sample_replacement)],
                         selectedChangeIndex := 1\<rparr>"]
  by (simp add: sample_st_def)

section \<open>Word counts\<close>

lemma countWords_examples:
  "countWords (Some ''  hello   world  '') = 2 \<and> countWords None = 0 \<and>
   countWords (Some []) = 0"
  by (simp add: countWords_def trim_def split_whitespace_def is_space_def)

text \<open>Every text that is not empty and holds white space only counts one word.\<close>

lemma countWords_whitespace_only:
  assumes "t \<noteq> []" and "list_all is_space t"
  shows "countWords (Some t) = 1"
proof -
  from assms(2) have blank: "dropWhile is_space t = []"
    by (induction t) auto
  have "length (split_whitespace (trim t)) = 1"
    unfolding trim_def split_whitespace_def blank by simp
  with assms(1) show ?thesis
    by (simp add: countWords_def)
qed

text \<open>
  Claim C8. For a text of white space only the claim gives the count 0; \<open>countWords\<close>
  gives 1, since the text is not empty, its trimmed form is the empty string, and
  splitting the empty string gives one piece.
\<close>

theorem countWords_blank_text:
  "countWords (Some '' '') = 1 \<and> countWords (Some [CHR '' '', CHR 0x09, CHR '' '']) = 1"
  by (simp add: countWords_def trim_def split_whitespace_def is_space_def)

section \<open>Coordinate keys\<close>

lemma sample_key_fraction: "coordinateKey (21 / 2, 81 / 4, w, h) = ''10.5,20.25''"
  by (simp add: coordinateKey_def) code_simp

lemma sample_rounded_key: "spec_rounded_key (21 / 2, 81 / 4, w, h) = ''11,20''"
  by (simp add: spec_rounded_key_def Math_round_def) code_simp

lemma sample_key_30_40: "coordinateKey (30, 40, w, h) = ''30,40''"
  by (simp add: coordinateKey_def) code_simp

text \<open>
  Claim C5, as stated, fails twice. A delete whose original block starts at (10.5, 20.25)
  is keyed \<open>10.5,20.25\<close>, where the rounded origin gives \<open>11,20\<close>. And in
  \<open>src/app/page.tsx\<close> a delete whose original block starts at (10, 20) and whose
  changed block starts at (30, 40) is keyed by the changed block.
\<close>

theorem coordinate_key_counterexample:
  "written_keys (processOperation 0 sample_fraction_delete ([], sample_st)) =
     Inr [''10.5,20.25''] \<and>
   spec_rounded_key (21 / 2, 81 / 4, 50, 12) = ''11,20'' \<and>
   written_keys (processOperation_app_page 0 sample_moved_delete ([], [], [])) =
     Inr [coordinateKey (30, 40, 50, 12)] \<and>
   coordinateKey (30, 40, 50, 12) \<noteq> coordinateKey (10, 20, 50, 12)"
  by (simp add: written_keys_def processOperation_def processOperation_app_page_def
       sample_fraction_delete_def sample_moved_delete_def sample_op_def
       sample_st_def sample_instance_def Let_def create_on_def create_def instance_of_def
       put_instance_def sample_key_fraction sample_rounded_key sample_key_30_40
       sample_key_10_20)

lemma key_processOperation_delete:
  "processOperation p operation (changes, s) = Inr (changes', s') \<Longrightarrow>
   opType operation = Delete \<Longrightarrow>
   \<exists>tb tbs. originalTextBlocks operation = tb # tbs \<and>
      Map_has changes' (coordinateKey (rect tb)) \<and>
      (\<forall>k. k \<noteq> coordinateKey (rect tb) \<longrightarrow> Map_get changes' k = Map_get changes k)"
  by (auto simp: processOperation_def Let_def Map_has_get Map_get_set Map_get_set_other
           split: list.splits sum.splits option.splits)

lemma key_processOperation_insert:
  "processOperation p operation (changes, s) = Inr (changes', s') \<Longrightarrow>
   opType operation = Insert \<Longrightarrow>
   \<exists>tb tbs. changedTextBlocks operation = tb # tbs \<and>
      Map_has changes' (coordinateKey (rect tb)) \<and>
      (\<forall>k. k \<noteq> coordinateKey (rect tb) \<longrightarrow> Map_get changes' k = Map_get changes k)"
  by (auto simp: processOperation_def Let_def Map_has_get Map_get_set Map_get_set_other
           split: list.splits sum.splits option.splits)

lemma key_processReplacement:
  "processReplacement p deleteOp insertOp (changes, s) = Inr (changes', s') \<Longrightarrow>
   \<exists>tb tbs. originalTextBlocks deleteOp = tb # tbs \<and>
      Map_has changes' (coordinateKey (rect tb)) \<and>
      (\<forall>k. k \<noteq> coordinateKey (rect tb) \<longrightarrow> Map_get changes' k = Map_get changes k)"
  by (auto simp: processReplacement_def Let_def Map_has_get Map_get_set Map_get_set_other
           split: list.splits sum.splits option.splits)

lemma key_processOperation_app_page:
  "processOperation_app_page p operation (changes, rs) = Inr (changes', rs') \<Longrightarrow>
   opType operation \<noteq> Equal \<Longrightarrow>
   \<exists>tb tbs. changedTextBlocks operation = tb # tbs \<and>
      Map_has changes' (coordinateKey (rect tb)) \<and>
      (\<forall>k. k \<noteq> coordinateKey (rect tb) \<longrightarrow> Map_get changes' k = Map_get changes k)"
  by (cases rs)
     (auto simp: processOperation_app_page_def Let_def Map_has_get Map_get_set
           Map_get_set_other
           split: list.splits sum.splits option.splits op_type.splits)

text \<open>The text of a number holds no comma, so a key splits at its comma in one way.\<close>

lemma digit_char_digit: "0 \<le> d \<Longrightarrow> d < 10 \<Longrightarrow> digit_char d \<in> set ''0123456789''"
proof -
  assume "0 \<le> d" "d < 10"
  then have "nat d < length ''0123456789''" by simp
  then show ?thesis unfolding digit_char_def by (rule nth_mem)
qed

lemma digit_char_low: "d < 10 \<Longrightarrow> digit_char d \<in> set ''0123456789''"
proof (cases "0 \<le> d")
  case True
  assume "d < 10"
  with True show ?thesis by (rule digit_char_digit)
next
  case False
  then have "nat d = 0" by simp
  then show ?thesis by (simp add: digit_char_def)
qed

lemma int_digits_chars: "set (int_digits n) \<subseteq> set ''0123456789''"
proof (induction n rule: int_digits.induct)
  case (1 n)
  show ?case
  proof (cases "n < 10")
    case True
    then show ?thesis
      using digit_char_low [of n] by (subst int_digits.simps) simp
  next
    case False
    have "digit_char (n mod 10) \<in> set ''0123456789''"
      by (rule digit_char_digit) simp_all
    with False "1.IH" show ?thesis
      by (subst int_digits.simps) simp
  qed
qed

lemma int_digits_no_comma: "CHR '','' \<notin> set (int_digits n)"
  using int_digits_chars [of n] by auto

lemma format_digits_no_comma: "CHR '','' \<notin> set (format_digits sn)"
  by (cases sn)
     (auto simp: format_digits_def Let_def int_digits_no_comma
           dest: in_set_takeD in_set_dropD)

lemma number_toString_no_comma: "CHR '','' \<notin> set (number_toString x)"
  by (simp add: number_toString_def format_digits_no_comma)

lemma takeWhile_comma:
  "CHR '','' \<notin> set a \<Longrightarrow> takeWhile (\<lambda>c. c \<noteq> CHR '','') (a @ CHR '','' # b) = a"
  by (induction a) auto

lemma comma_split:
  assumes "CHR '','' \<notin> set a" and "CHR '','' \<notin> set a'"
  shows "a @ CHR '','' # b = a' @ CHR '','' # b' \<longleftrightarrow> a = a' \<and> b = b'"
proof
  assume eq: "a @ CHR '','' # b = a' @ CHR '','' # b'"
  have "takeWhile (\<lambda>c. c \<noteq> CHR '','') (a @ CHR '','' # b) = a"
    using assms(1) by (rule takeWhile_comma)
  moreover have "takeWhile (\<lambda>c. c \<noteq> CHR '','') (a' @ CHR '','' # b') = a'"
    using assms(2) by (rule takeWhile_comma)
  ultimately have "a = a'" using eq by simp
  with eq show "a = a' \<and> b = b'" by simp
qed simp

lemma coordinateKey_eq_iff:
  "coordinateKey (x, y, w, h) = coordinateKey (x', y', w', h') \<longleftrightarrow>
     number_toString x = number_toString x' \<and> number_toString y = number_toString y'"
  by (simp add: coordinateKey_def comma_split number_toString_no_comma)

lemma coordinateKey_rounded_iff:
  "coordinateKey (x, y, w, h) = spec_rounded_key (x, y, w, h) \<longleftrightarrow>
     number_toString x = number_toString (Math_round x) \<and>
     number_toString y = number_toString (Math_round y)"
  by (simp add: coordinateKey_def spec_rounded_key_def comma_split number_toString_no_comma)

text \<open>
  Claim C5, amended. Whenever the step returns, it has written under the key of one text
  block and touched no other key: in the page loop the first original-document block for
  a standalone delete and for a replacement pair, the first changed-document block for a
  standalone insert; in \<open>src/app/page.tsx\<close> the first changed-document block for a delete
  and an insert alike. The key is the text of \<open>x\<close>, a comma and the text of \<open>y\<close>, each as
  the language prints the number itself: two origins have one key exactly when their
  coordinates print alike, and the key is that of the rounded origin exactly when both
  coordinates print as their rounded values do.
\<close>

theorem coordinate_key_unrounded:
  "(processOperation p operation (changes, s) = Inr (changes', s') \<and>
      opType operation = Delete \<longrightarrow>
      (\<exists>tb tbs. originalTextBlocks operation = tb # tbs \<and>
         Map_has changes' (coordinateKey (rect tb)) \<and>
         (\<forall>k. k \<noteq> coordinateKey (rect tb) \<longrightarrow> Map_get changes' k = Map_get changes k))) \<and>
   (processOperation p operation (changes, s) = Inr (changes', s') \<and>
      opType operation = Insert \<longrightarrow>
      (\<exists>tb tbs. changedTextBlocks operation = tb # tbs \<and>
         Map_has changes' (coordinateKey (rect tb)) \<and>
         (\<forall>k. k \<noteq> coordinateKey (rect tb) \<longrightarrow> Map_get changes' k = Map_get changes k))) \<and>
   (processReplacement p deleteOp insertOp (changes, s) = Inr (changes', s') \<longrightarrow>
      (\<exists>tb tbs. originalTextBlocks deleteOp = tb # tbs \<and>
         Map_has changes' (coordinateKey (rect tb)) \<and>
         (\<forall>k. k \<noteq> coordinateKey (rect tb) \<longrightarrow> Map_get changes' k = Map_get changes k))) \<and>
   (processOperation_app_page p operation (changes, rs) = Inr (changes', rs') \<and>
      opType operation \<noteq> Equal \<longrightarrow>
      (\<exists>tb tbs. changedTextBlocks operation = tb # tbs \<and>
         Map_has changes' (coordinateKey (rect tb)) \<and>
         (\<forall>k. k \<noteq> coordinateKey (rect tb) \<longrightarrow> Map_get changes' k = Map_get changes k))) \<and>
   coordinateKey (x, y, w, h) = number_toString x @ '','' @ number_toString y \<and>
   (coordinateKey (x, y, w, h) = coordinateKey (x', y', w', h') \<longleftrightarrow>
      number_toString x = number_toString x' \<and> number_toString y = number_toString y') \<and>
   (coordinateKey (x, y, w, h) = spec_rounded_key (x, y, w, h) \<longleftrightarrow>
      number_toString x = number_toString (Math_round x) \<and>
      number_toString y = number_toString (Math_round y))"
proof -
  have paths:
    "(processOperation p operation (changes, s) = Inr (changes', s') \<and>
      opType operation = Delete \<longrightarrow>
      (\<exists>tb tbs. originalTextBlocks operation = tb # tbs \<and>
         Map_has changes' (coordinateKey (rect tb)) \<and>
         (\<forall>k. k \<noteq> coordinateKey (rect tb) \<longrightarrow> Map_get changes' k = Map_get changes k))) \<and>
   (processOperation p operation (changes, s) = Inr (changes', s') \<and>
      opType operation = Insert \<longrightarrow>
      (\<exists>tb tbs. changedTextBlocks operation = tb # tbs \<and>
         Map_has changes' (coordinateKey (rect tb)) \<and>
         (\<forall>k. k \<noteq> coordinateKey (rect tb) \<longrightarrow> Map_get changes' k = Map_get changes k))) \<and>
   (processReplacement p deleteOp insertOp (changes, s) = Inr (changes', s') \<longrightarrow>
      (\<exists>tb tbs. originalTextBlocks deleteOp = tb # tbs \<and>
         Map_has changes' (coordinateKey (rect tb)) \<and>
         (\<forall>k. k \<noteq> coordinateKey (rect tb) \<longrightarrow> Map_get changes' k = Map_get changes k))) \<and>
   (processOperation_app_page p operation (changes, rs) = Inr (changes', rs') \<and>
      opType operation \<noteq> Equal \<longrightarrow>
      (\<exists>tb tbs. changedTextBlocks operation = tb # tbs \<and>
         Map_has changes' (coordinateKey (rect tb)) \<and>
         (\<forall>k. k \<noteq> coordinateKey (rect tb) \<longrightarrow> Map_get changes' k = Map_get changes k)))"
    using key_processOperation_delete [of p operation changes s changes' s']
      key_processOperation_insert [of p operation changes s changes' s']
      key_processReplacement [of p deleteOp insertOp changes s changes' s']
      key_processOperation_app_page [of p operation changes rs changes' rs']
    by blast
  have key: "coordinateKey (x, y, w, h) = number_toString x @ '','' @ number_toString y"
    by (simp add: coordinateKey_def)
  from paths key coordinateKey_eq_iff [of x y w h x' y' w' h']
    coordinateKey_rounded_iff [of x y w h]
  show ?thesis
    by (intro conjI) (elim conjE, assumption)+
qed

text \<open>A small origin, printed in exponent notation, and its rounded key.\<close>

lemma sample_probe_key:
  "coordinateKey (1 / 1048576, 7234 / 100, w, h) = ''9.5367431640625e-7,72.34''"
  by (simp add: coordinateKey_def) code_simp

lemma sample_probe_rounded: "spec_rounded_key (1 / 1048576, 7234 / 100, w, h) = ''0,72''"
  by (simp add: spec_rounded_key_def Math_round_def) code_simp

lemma sample_results:
  "\<exists>c s'. processOperation 0 sample_fraction_delete ([], sample_st) = Inr (c, s')"
  "\<exists>c s'. processOperation 0 (sample_pair ! 1) ([], sample_st) = Inr (c, s')"
  "\<exists>c s'. processReplacement 0 (sample_pair ! 0) (sample_pair ! 1) ([], sample_st)
            = Inr (c, s')"
  "\<exists>c rs. processOperation_app_page 0 sample_moved_delete ([], [], []) = Inr (c, rs)"
  by (simp_all add: processOperation_def processReplacement_def processOperation_app_page_def
        sample_fraction_delete_def sample_moved_delete_def sample_pair_def sample_op_def
        sample_st_def sample_instance_def Let_def create_on_def create_def instance_of_def
        put_instance_def)

theorem coordinate_key_unrounded_witness:
  "(\<exists>c s'. processOperation 0 sample_fraction_delete ([], sample_st) = Inr (c, s') \<and>
      opType sample_fraction_delete = Delete \<and> Map_has c ''10.5,20.25'') \<and>
   (\<exists>c s'. processOperation 0 (sample_pair ! 1) ([], sample_st) = Inr (c, s') \<and>
      opType (sample_pair ! 1) = Insert \<and> Map_has c ''10,20'') \<and>
   (\<exists>c s'. processReplacement 0 (sample_pair ! 0) (sample_pair ! 1) ([], sample_st)
             = Inr (c, s') \<and>
      Map_has c ''10,20'') \<and>
   (\<exists>c rs. processOperation_app_page 0 sample_moved_delete ([], [], []) = Inr (c, rs) \<and>
      opType sample_moved_delete \<noteq> Equal \<and> Map_has c ''30,40'') \<and>
   coordinateKey (1 / 1048576, 7234 / 100, 1, 1) = ''9.5367431640625e-7,72.34'' \<and>
   coordinateKey (1 / 1048576, 7234 / 100, 1, 1)
     \<noteq> spec_rounded_key (1 / 1048576, 7234 / 100, 1, 1) \<and>
   coordinateKey (21 / 2, 81 / 4, 50, 12) \<noteq> coordinateKey (11, 20, 50, 12)"
proof -
  obtain c1 s1 where
    r1: "processOperation 0 sample_fraction_delete ([], sample_st) = Inr (c1, s1)"
    using sample_results(1) by blast
  have t1: "opType sample_fraction_delete = Delete"
    by (simp add: sample_fraction_delete_def sample_op_def)
  have "Map_has c1 ''10.5,20.25''"
    using coordinate_key_unrounded [of 0 sample_fraction_delete "[]" sample_st c1 s1] r1 t1
    by (auto simp: sample_fraction_delete_def sample_op_def sample_key_fraction)
  with r1 t1 have w1:
    "\<exists>c s'. processOperation 0 sample_fraction_delete ([], sample_st) = Inr (c, s') \<and>
      opType sample_fraction_delete = Delete \<and> Map_has c ''10.5,20.25''"
    by blast
  obtain c2 s2 where r2: "processOperation 0 (sample_pair ! 1) ([], sample_st) = Inr (c2, s2)"
    using sample_results(2) by blast
  have t2: "opType (sample_pair ! 1) = Insert"
    by (simp add: sample_pair_def sample_op_def)
  have "Map_has c2 ''10,20''"
    using coordinate_key_unrounded [of 0 "sample_pair ! 1" "[]" sample_st c2 s2] r2 t2
    by (auto simp: sample_pair_def sample_op_def sample_key_10_20)
  with r2 t2 have w2:
    "\<exists>c s'. processOperation 0 (sample_pair ! 1) ([], sample_st) = Inr (c, s') \<and>
      opType (sample_pair ! 1) = Insert \<and> Map_has c ''10,20''"
    by blast
  obtain c3 s3 where
    r3: "processReplacement 0 (sample_pair ! 0) (sample_pair ! 1) ([], sample_st)
           = Inr (c3, s3)"
    using sample_results(3) by blast
  have "Map_has c3 ''10,20''"
    using coordinate_key_unrounded
            [of 0 _ "[]" sample_st c3 s3 "sample_pair ! 0" "sample_pair ! 1"] r3
    by (auto simp: sample_pair_def sample_op_def sample_key_10_20)
  with r3 have w3:
    "\<exists>c s'. processReplacement 0 (sample_pair ! 0) (sample_pair ! 1) ([], sample_st)
              = Inr (c, s') \<and>
      Map_has c ''10,20''"
    by blast
  obtain c4 rs4 where
    r4: "processOperation_app_page 0 sample_moved_delete ([], [], []) = Inr (c4, rs4)"
    using sample_results(4) by blast
  have t4: "opType sample_moved_delete \<noteq> Equal"
    by (simp add: sample_moved_delete_def sample_op_def)
  have "Map_has c4 ''30,40''"
    using coordinate_key_unrounded [of 0 sample_moved_delete "[]" _ c4 _ _ _ "([], [])" rs4]
      r4 t4
    by (auto simp: sample_moved_delete_def sample_op_def sample_key_30_40)
  with r4 t4 have w4:
    "\<exists>c rs. processOperation_app_page 0 sample_moved_delete ([], [], []) = Inr (c, rs) \<and>
      opType sample_moved_delete \<noteq> Equal \<and> Map_has c ''30,40''"
    by blast
  have "number_toString (21 / 2) \<noteq> number_toString 11"
    by code_simp
  then have w5: "coordinateKey (21 / 2, 81 / 4, 50, 12) \<noteq> coordinateKey (11, 20, 50, 12)"
    using coordinate_key_unrounded [where x = "21 / 2" and y = "81 / 4" and w = 50
            and h = 12 and x' = 11 and y' = 20 and w' = 50 and h' = 12]
    by blast
  have k: "coordinateKey (1 / 1048576, 7234 / 100, 1, 1) = ''9.5367431640625e-7,72.34''"
    by (rule sample_probe_key)
  have r: "spec_rounded_key (1 / 1048576, 7234 / 100, 1, 1) = ''0,72''"
    by (rule sample_probe_rounded)
  have w6: "coordinateKey (1 / 1048576, 7234 / 100, 1, 1) = ''9.5367431640625e-7,72.34'' \<and>
      coordinateKey (1 / 1048576, 7234 / 100, 1, 1)
        \<noteq> spec_rounded_key (1 / 1048576, 7234 / 100, 1, 1)"
    unfolding k r by simp
  from w1 w2 w3 w4 w5 w6 show ?thesis by blast
qed

section \<open>Merging into an entry\<close>

lemmas sample_eval =
  processOperation_def processReplacement_def sample_op_def sample_st_def
  sample_instance_def Let_def create_on_def create_def instance_of_def put_instance_def
  sample_key_10_20 annotationId_of_def id_list_def ids_or_empty_def empty_change_def
  Rect_of_def

text \<open>
  Claim C2, as stated, fails: of two deletes with the same key the second replaces the
  text the first recorded. After the first the entry holds \<open>first\<close>; after the second
  it holds \<open>second\<close>, with both identifiers.
\<close>

theorem merge_overwrites_same_kind_counterexample:
  "changes_of (processOperation 0 (sample_delete ''first'') ([], sample_st)) =
     Inr [(''10,20'', sample_deleted ''first'' 0 [''d1''])] \<and>
   changes_of (and_then (processOperation 0 (sample_delete ''first'') ([], sample_st))
                 (processOperation 0 (sample_delete ''second''))) =
     Inr [(''10,20'', sample_deleted ''second'' 0 [''d1'', ''d2''])] \<and>
   \<not> spec_nondestructive (sample_deleted ''first'' 0 [''d1''])
        (sample_deleted ''second'' 0 [''d1'', ''d2''])"
  by (simp add: changes_of_def and_then_def sample_delete_def sample_eval sample_deleted_def
        spec_nondestructive_def field_survives_def)

text \<open>The replacement branch sets its entry without looking for one: after a standalone
  insert keyed \<open>10,20\<close>, the pair of the scenario leaves the entry of the pair alone, and
  the identifier \<open>i1\<close> of the first insert is in no entry.\<close>

lemma replacement_replaces_entry:
  "changes_of (processOperation 0 (sample_pair ! 1) ([], sample_st)) =
     Inr [(''10,20'', sample_inserted)] \<and>
   changes_of (and_then (processOperation 0 (sample_pair ! 1) ([], sample_st))
                 (cursor_loop 0 sample_pair 0)) =
     Inr [(''10,20'', sample_replacement\<lparr>annotationIds := Some [''d1'', ''i2'']\<rparr>)]"
  by (simp add: changes_of_def and_then_def sample_pair_def sample_eval
        sample_replacement_def sample_inserted_def cursor_loop.simps loop_step_def)

lemma merge_delete:
  assumes "processOperation p operation (changes, s) = Inr (changes', s')"
    and "opType operation = Delete"
    and "originalTextBlocks operation = tb # tbs"
    and "Map_get changes (coordinateKey (rect tb)) = Some existing"
  shows "\<exists>merged created rest.
           createResponses (instance_of Original s) = Created created # rest \<and>
           map fst (annotations (instance_of Original s')) =
             map fst (annotations (instance_of Original s)) @ created \<and>
           Map_get changes' (coordinateKey (rect tb)) = Some merged \<and>
           annotationIds merged =
             Some (ids_or_empty (annotationIds existing) @ id_list (annotationId_of created)) \<and>
           length changes' = length changes \<and>
           insertText merged = insertText existing \<and>
           insertFlag merged = insertFlag existing \<and>
           changedRect merged = changedRect existing \<and>
           deleteText merged = Some (opText operation) \<and>
           del merged = Some True \<and>
           originalRect merged = Some (Rect_of (rect tb))"
  using assms
  by (auto simp: processOperation_def Let_def Map_get_set length_Map_set Map_has_get
           create_on_def create_def instance_of_def put_instance_def comp_def
           split: sum.splits option.splits list.splits create_response.splits)

lemma merge_insert:
  assumes "processOperation p operation (changes, s) = Inr (changes', s')"
    and "opType operation = Insert"
    and "changedTextBlocks operation = tb # tbs"
    and "Map_get changes (coordinateKey (rect tb)) = Some existing"
  shows "\<exists>merged created rest.
           createResponses (instance_of Changed s) = Created created # rest \<and>
           map fst (annotations (instance_of Changed s')) =
             map fst (annotations (instance_of Changed s)) @ created \<and>
           Map_get changes' (coordinateKey (rect tb)) = Some merged \<and>
           annotationIds merged =
             Some (ids_or_empty (annotationIds existing) @ id_list (annotationId_of created)) \<and>
           length changes' = length changes \<and>
           deleteText merged = deleteText existing \<and>
           del merged = del existing \<and>
           originalRect merged = originalRect existing \<and>
           insertText merged = Some (opText operation) \<and>
           insertFlag merged = Some True \<and>
           changedRect merged = Some (Rect_of (rect tb))"
  using assms
  by (auto simp: processOperation_def Let_def Map_get_set length_Map_set Map_has_get
           create_on_def create_def instance_of_def put_instance_def comp_def
           split: sum.splits option.splits list.splits create_response.splits)

lemma id_list_first: "i \<noteq> [] \<Longrightarrow> id_list (annotationId_of (i # others)) = [i]"
  by (simp add: id_list_def annotationId_of_def)

text \<open>
  Claim C2, amended. When \<open>processOperation\<close> writes a standalone delete or insert under
  a key that has an entry, the map keeps its size. The engine has answered the \<open>create\<close>
  call of the operation's view with the identifiers it created, which it now stores; the
  merged entry lists every recorded identifier, in order, followed by the first of those
  created if it is not empty: so with the new identifier appended whenever the engine
  gave one. For a delete the inserted text, the insert flag and the changed rectangle
  are as recorded, and the deleted text, the delete flag and the original rectangle are
  those of the operation; for an insert likewise with the roles exchanged.
\<close>

theorem standalone_merge_keeps_entry:
  assumes "processOperation p operation (changes, s) = Inr (changes', s')"
    and "(opType operation = Delete \<and> originalTextBlocks operation = tb # tbs \<and>
            sd = Original) \<or>
         (opType operation = Insert \<and> changedTextBlocks operation = tb # tbs \<and>
            sd = Changed)"
    and "Map_get changes (coordinateKey (rect tb)) = Some existing"
  shows "\<exists>merged created rest.
           createResponses (instance_of sd s) = Created created # rest \<and>
           map fst (annotations (instance_of sd s')) =
             map fst (annotations (instance_of sd s)) @ created \<and>
           Map_get changes' (coordinateKey (rect tb)) = Some merged \<and>
           annotationIds merged =
             Some (ids_or_empty (annotationIds existing) @ id_list (annotationId_of created)) \<and>
           (\<forall>i others. created = i # others \<and> i \<noteq> [] \<longrightarrow>
              annotationIds merged = Some (ids_or_empty (annotationIds existing) @ [i])) \<and>
           length changes' = length changes \<and>
           (opType operation = Delete \<longrightarrow>
              insertText merged = insertText existing \<and>
              insertFlag merged = insertFlag existing \<and>
              changedRect merged = changedRect existing \<and>
              deleteText merged = Some (opText operation) \<and>
              del merged = Some True \<and>
              originalRect merged = Some (Rect_of (rect tb))) \<and>
           (opType operation = Insert \<longrightarrow>
              deleteText merged = deleteText existing \<and>
              del merged = del existing \<and>
              originalRect merged = originalRect existing \<and>
              insertText merged = Some (opText operation) \<and>
              insertFlag merged = Some True \<and>
              changedRect merged = Some (Rect_of (rect tb)))"
  using assms(2)
proof
  assume d: "opType operation = Delete \<and> originalTextBlocks operation = tb # tbs \<and>
            sd = Original"
  with merge_delete [OF assms(1) _ _ assms(3)] show ?thesis
    by (fastforce simp: id_list_first)
next
  assume i: "opType operation = Insert \<and> changedTextBlocks operation = tb # tbs \<and>
            sd = Changed"
  with merge_insert [OF assms(1) _ _ assms(3)] show ?thesis
    by (fastforce simp: id_list_first)
qed

theorem standalone_merge_keeps_entry_witness:
  "\<exists>c s' merged.
     processOperation 0 (sample_delete ''old text'') ([(''10,20'', sample_inserted)], sample_st)
       = Inr (c, s') \<and>
     Map_get c ''10,20'' = Some merged \<and>
     annotationIds merged = Some [''i1'', ''d1''] \<and>
     map fst (annotations (originalInstance s')) = [''d1''] \<and>
     length c = 1 \<and>
     insertText merged = Some ''new words'' \<and>
     deleteText merged = Some ''old text''"
proof -
  obtain c s' where
    r: "processOperation 0 (sample_delete ''old text'')
          ([(''10,20'', sample_inserted)], sample_st) = Inr (c, s')"
    by (simp add: sample_delete_def sample_eval)
  have "\<exists>merged created rest.
           createResponses (instance_of Original sample_st) = Created created # rest \<and>
           map fst (annotations (instance_of Original s')) =
             map fst (annotations (instance_of Original sample_st)) @ created \<and>
           Map_get c (coordinateKey (rect \<lparr>rect = (10, 20, 50, 12)\<rparr>)) = Some merged \<and>
           annotationIds merged =
             Some (ids_or_empty (annotationIds sample_inserted) @
                   id_list (annotationId_of created)) \<and>
           (\<forall>i others. created = i # others \<and> i \<noteq> [] \<longrightarrow>
              annotationIds merged =
                Some (ids_or_empty (annotationIds sample_inserted) @ [i])) \<and>
           length c = length [(''10,20'', sample_inserted)] \<and>
           (opType (sample_delete ''old text'') = Delete \<longrightarrow>
              insertText merged = insertText sample_inserted \<and>
              insertFlag merged = insertFlag sample_inserted \<and>
              changedRect merged = changedRect sample_inserted \<and>
              deleteText merged = Some (opText (sample_delete ''old text'')) \<and>
              del merged = Some True \<and>
              originalRect merged = Some (Rect_of (rect \<lparr>rect = (10, 20, 50, 12)\<rparr>))) \<and>
           (opType (sample_delete ''old text'') = Insert \<longrightarrow>
              deleteText merged = deleteText sample_inserted \<and>
              del merged = del sample_inserted \<and>
              originalRect merged = originalRect sample_inserted \<and>
              insertText merged = Some (opText (sample_delete ''old text'')) \<and>
              insertFlag merged = Some True \<and>
              changedRect merged = Some (Rect_of (rect \<lparr>rect = (10, 20, 50, 12)\<rparr>)))"
    by (rule standalone_merge_keeps_entry [OF r, where tbs = "[]"])
       (simp_all add: sample_delete_def sample_op_def sample_key_10_20)
  then obtain merged where
    "Map_get c ''10,20'' = Some merged"
    "annotationIds merged = Some [''i1'', ''d1'']"
    "map fst (annotations (originalInstance s')) = [''d1'']"
    "length c = 1"
    "insertText merged = Some ''new words''"
    "deleteText merged = Some ''old text''"
    by (auto simp: sample_delete_def sample_op_def sample_key_10_20 sample_inserted_def
          ids_or_empty_def sample_st_def sample_instance_def instance_of_def)
  with r show ?thesis
    by (intro exI [of _ c] exI [of _ s'] exI [of _ merged]) simp
qed

section \<open>Synchronisation\<close>

lemma sync_ignored:
  "\<not> isScrollLockedRef s \<or> isSyncingRef s \<Longrightarrow> sync (Suc depth) src s = Some (s, None)"
  by (auto simp: sync.simps)

lemma sync_pass:
  "isScrollLockedRef s \<Longrightarrow> \<not> isSyncingRef s \<Longrightarrow>
   sync (Suc depth) src s =
     (case syncBody (sync depth) src
             (s\<lparr>isSyncingRef := True, syncingWrites := syncingWrites s @ [True]\<rparr>) of
        None \<Rightarrow> None
      | Some (s', e) \<Rightarrow>
          Some (s'\<lparr>isSyncingRef := False, syncingWrites := syncingWrites s' @ [False]\<rparr>, e))"
  by (simp add: sync.simps)

lemma flags_put_instance [simp]:
  "isSyncingRef (put_instance sd inst s) = isSyncingRef s"
  "isScrollLockedRef (put_instance sd inst s) = isScrollLockedRef s"
  "syncingWrites (put_instance sd inst s) = syncingWrites s"
  by (simp_all add: put_instance_def split: side.splits)

lemma instance_of_put_instance [simp]:
  "instance_of sd (put_instance sd inst s) = inst"
  "instance_of (other sd) (put_instance sd inst s) = instance_of (other sd) s"
  "instance_of sd (put_instance (other sd) inst s) = instance_of sd s"
  by (simp_all add: put_instance_def instance_of_def other_def split: side.splits)

lemma setViewState_on_guarded:
  "isSyncingRef s \<Longrightarrow>
   setViewState_on (sync (Suc depth)) sd v s = setViewState_on no_listeners sd v s"
  by (simp add: setViewState_on_def no_listeners_def Let_def sync_ignored split: sum.splits)

lemma setViewState_on_no_listeners:
  "setViewState_on no_listeners sd v s =
     (case setViewState v (instance_of sd s) of
        Inl e \<Rightarrow> Some (s, Some e)
      | Inr inst \<Rightarrow> Some (put_instance sd inst s, None))"
  by (simp add: setViewState_on_def no_listeners_def Let_def split: sum.splits)

lemma setViewState_on_flags:
  "setViewState_on no_listeners sd v s = Some (s', e) \<Longrightarrow>
   isSyncingRef s' = isSyncingRef s \<and> syncingWrites s' = syncingWrites s \<and>
   isScrollLockedRef s' = isScrollLockedRef s \<and>
   instance_of (other sd) s' = instance_of (other sd) s"
  by (auto simp: setViewState_on_no_listeners split: sum.splits)

lemma syncBody_guarded:
  "isSyncingRef s \<Longrightarrow> syncBody (sync (Suc depth)) src s = syncBody no_listeners src s"
  by (auto simp: syncBody_def Let_def setViewState_on_guarded
      dest: setViewState_on_flags split: option.splits)

lemma syncBody_no_listeners_Some: "\<exists>s' e. syncBody no_listeners src s = Some (s', e)"
  by (auto simp: syncBody_def Let_def setViewState_on_no_listeners split: option.splits sum.splits)

lemma other_other [simp]: "other (other sd) = sd"
  by (simp add: other_def split: side.splits)

lemma syncBody_frame:
  "syncBody no_listeners src s = Some (s', e) \<Longrightarrow>
   isSyncingRef s' = isSyncingRef s \<and> syncingWrites s' = syncingWrites s \<and>
   isScrollLockedRef s' = isScrollLockedRef s \<and>
   instance_of src s' = instance_of src s"
  by (auto simp: syncBody_def Let_def setViewState_on_no_listeners instance_of_def put_instance_def other_def
      split: option.splits sum.splits if_splits side.splits)


lemma sync_pass_no_listeners:
  assumes "isScrollLockedRef s" and "\<not> isSyncingRef s"
  shows "sync (Suc (Suc depth)) src s =
     (case syncBody no_listeners src
             (s\<lparr>isSyncingRef := True, syncingWrites := syncingWrites s @ [True]\<rparr>) of
        None \<Rightarrow> None
      | Some (s', e) \<Rightarrow>
          Some (s'\<lparr>isSyncingRef := False, syncingWrites := syncingWrites s' @ [False]\<rparr>, e))"
  using assms by (simp add: sync_pass syncBody_guarded)

text \<open>
  Claim C4. A handler called while the guard is set returns at once and changes nothing.
  A handler called with the lock on and the guard clear runs one pass and returns,
  whatever depth of nested calls it is allowed beyond the one the engine may make: the
  listeners the engine calls while the target's view state is set do what no listener
  would do, so the pass is not entered again and its outcome is that of depth 2. The
  guard is assigned \<open>true\<close> once and \<open>false\<close> once, it is \<open>false\<close> at the end whether or
  not an engine call threw, and the view that fired the event is as it was.
\<close>

theorem synchronisation_does_not_recurse:
  "(isSyncingRef t \<longrightarrow> sync (Suc depth) sd t = Some (t, None)) \<and>
   (isScrollLockedRef s \<and> \<not> isSyncingRef s \<longrightarrow>
      (\<exists>s' e. sync (Suc (Suc depth)) src s = Some (s', e) \<and>
              sync (Suc (Suc depth)) src s = sync (Suc (Suc 0)) src s \<and>
              syncBody (sync (Suc depth)) src
                  (s\<lparr>isSyncingRef := True, syncingWrites := syncingWrites s @ [True]\<rparr>) =
                syncBody no_listeners src
                  (s\<lparr>isSyncingRef := True, syncingWrites := syncingWrites s @ [True]\<rparr>) \<and>
              \<not> isSyncingRef s' \<and>
              syncingWrites s' = syncingWrites s @ [True, False] \<and>
              instance_of src s' = instance_of src s))"
proof (intro conjI impI)
  assume "isSyncingRef t"
  then show "sync (Suc depth) sd t = Some (t, None)"
    by (simp add: sync_ignored)
next
  assume a: "isScrollLockedRef s \<and> \<not> isSyncingRef s"
  let ?s0 = "s\<lparr>isSyncingRef := True, syncingWrites := syncingWrites s @ [True]\<rparr>"
  obtain s1 e where body: "syncBody no_listeners src ?s0 = Some (s1, e)"
    using syncBody_no_listeners_Some by blast
  from syncBody_frame [OF body]
  have frame: "syncingWrites s1 = syncingWrites s @ [True]"
    "instance_of src s1 = instance_of src s"
    by (simp_all add: instance_of_def split: side.splits)
  have r: "sync (Suc (Suc d)) src s =
          Some (s1\<lparr>isSyncingRef := False, syncingWrites := syncingWrites s1 @ [False]\<rparr>, e)" for d
    using a body by (simp add: sync_pass_no_listeners)
  have g: "syncBody (sync (Suc depth)) src ?s0 = syncBody no_listeners src ?s0"
    by (simp add: syncBody_guarded)
  show "\<exists>s' e. sync (Suc (Suc depth)) src s = Some (s', e) \<and>
              sync (Suc (Suc depth)) src s = sync (Suc (Suc 0)) src s \<and>
              syncBody (sync (Suc depth)) src ?s0 = syncBody no_listeners src ?s0 \<and>
              \<not> isSyncingRef s' \<and>
              syncingWrites s' = syncingWrites s @ [True, False] \<and>
              instance_of src s' = instance_of src s"
    using r [of depth] r [of 0] g frame
    by (auto simp: instance_of_def split: side.splits)
qed





lemma instance_of_flags [simp]:
  "instance_of sd (s\<lparr>isSyncingRef := b\<rparr>) = instance_of sd s"
  "instance_of sd (s\<lparr>syncingWrites := ws\<rparr>) = instance_of sd s"
  "instance_of sd (s\<lparr>isScrollLocked := b\<rparr>) = instance_of sd s"
  "instance_of sd (s\<lparr>isScrollLockedRef := b\<rparr>) = instance_of sd s"
  by (simp_all add: instance_of_def split: side.splits)


lemmas sync_eval =
  sync.simps syncBody_def setViewState_on_def setViewState_def totalPageCount_def
  instance_of_def put_instance_def other_def Let_def sample_st_def sample_instance_def



lemma sample_sync_outcomes:
  "\<exists>x. sync (Suc (Suc 0)) Changed sample_paged = Some (x, None) \<and>
       currentPageIndex (viewState (originalInstance x)) = 2"
  "\<exists>x. sync (Suc (Suc 0)) Changed sample_beyond = Some (x, Some InvalidViewState)"
  by (simp_all add: sync_eval sample_paged_def sample_beyond_def)

text \<open>Two passes from the changed view: one that moves the original view to page 2, one
  that asks for a page the original document does not have, so that \<open>setViewState\<close>
  throws.\<close>

theorem synchronisation_does_not_recurse_witness:
  "sync (Suc 0) Original (sample_paged\<lparr>isSyncingRef := True\<rparr>) =
     Some (sample_paged\<lparr>isSyncingRef := True\<rparr>, None) \<and>
   (\<exists>s'. sync (Suc (Suc 0)) Changed sample_paged = Some (s', None) \<and>
      \<not> isSyncingRef s' \<and> syncingWrites s' = [True, False] \<and>
      changedInstance s' = changedInstance sample_paged \<and>
      currentPageIndex (viewState (originalInstance s')) = 2) \<and>
   (\<exists>s'. sync (Suc (Suc 0)) Changed sample_beyond = Some (s', Some InvalidViewState) \<and>
      \<not> isSyncingRef s' \<and> syncingWrites s' = [True, False] \<and>
      changedInstance s' = changedInstance sample_beyond)"
proof -
  have p: "isScrollLockedRef sample_paged \<and> \<not> isSyncingRef sample_paged"
    and b: "isScrollLockedRef sample_beyond \<and> \<not> isSyncingRef sample_beyond"
    by (simp_all add: sample_paged_def sample_beyond_def sample_st_def)
  from synchronisation_does_not_recurse [of _ 0 _ sample_paged Changed] p
  obtain s1 e1 where 1: "sync (Suc (Suc 0)) Changed sample_paged = Some (s1, e1)"
    "\<not> isSyncingRef s1" "syncingWrites s1 = syncingWrites sample_paged @ [True, False]"
    "instance_of Changed s1 = instance_of Changed sample_paged"
    by blast
  from synchronisation_does_not_recurse [of _ 0 _ sample_beyond Changed] b
  obtain s2 e2 where 2: "sync (Suc (Suc 0)) Changed sample_beyond = Some (s2, e2)"
    "\<not> isSyncingRef s2" "syncingWrites s2 = syncingWrites sample_beyond @ [True, False]"
    "instance_of Changed s2 = instance_of Changed sample_beyond"
    by blast
  from 1 sample_sync_outcomes(1)
  have "sync (Suc (Suc 0)) Changed sample_paged = Some (s1, None) \<and>
      \<not> isSyncingRef s1 \<and> syncingWrites s1 = [True, False] \<and>
      changedInstance s1 = changedInstance sample_paged \<and>
      currentPageIndex (viewState (originalInstance s1)) = 2"
    by (auto simp: instance_of_def sample_paged_def sample_st_def)
  moreover from 2 sample_sync_outcomes(2)
  have "sync (Suc (Suc 0)) Changed sample_beyond = Some (s2, Some InvalidViewState) \<and>
      \<not> isSyncingRef s2 \<and> syncingWrites s2 = [True, False] \<and>
      changedInstance s2 = changedInstance sample_beyond"
    by (auto simp: instance_of_def sample_beyond_def sample_st_def)
  moreover
  have "sync (Suc 0) Original (sample_paged\<lparr>isSyncingRef := True\<rparr>) =
          Some (sample_paged\<lparr>isSyncingRef := True\<rparr>, None)"
    using synchronisation_does_not_recurse
            [of "sample_paged\<lparr>isSyncingRef := True\<rparr>" 0 Original]
    by simp
  ultimately show ?thesis
    by blast
qed

end
